theory Spec2Isabelle
  imports Main
begin

unbundle bit_operations_syntax

section \<open>Raster layers, tiles and cache elements\<close>

text \<open>
  The tile cache of OpenREALM (\<^verbatim>\<open>modules/realm_ortho/src/tile_cache.cpp\<close>) keeps, per
  zoom level, column and row, one cache element that wraps a tile. A background worker
  (\<^verbatim>\<open>TileCache::process\<close>) writes unwritten elements to disk and removes the raster
  layers of the elements outside a predicted region of interest.

  The C++ \<^verbatim>\<open>int\<close> values (tile indices, zoom levels, rectangle fields, OpenCV type
  codes) are modelled as unbounded integers: signed overflow is undefined in C++ and tile
  indices stay far below the 32-bit range.
\<close>

text \<open>A \<^verbatim>\<open>cv::Mat\<close>: its type code (\<^verbatim>\<open>cv::Mat::type()\<close>) and its content.\<close>

record mat =
  mat_type :: int
  mat_bytes :: "nat list"

text \<open>
  Modelled from the spec: \<^verbatim>\<open>CvGridMap\<close> is declared outside the sources at hand. The
  spec describes it as a container of named raster layers that supports
  add, get, remove and empty; the code also reads \<^verbatim>\<open>getAllLayerNames\<close> and
  \<^verbatim>\<open>getLayer\<close> (name, data, interpolation). A container is the ordered list of its layers.
\<close>

record layer =
  l_name :: string
  l_data :: mat
  l_interpolation :: int

type_synonym grid_map = "layer list"

definition getAllLayerNames :: "grid_map \<Rightarrow> string list" where
  "getAllLayerNames g = map l_name g"

definition getLayer :: "grid_map \<Rightarrow> string \<Rightarrow> layer option" where
  "getLayer g n = find (\<lambda>l. l_name l = n) g"

definition grid_get :: "grid_map \<Rightarrow> string \<Rightarrow> mat option" where
  "grid_get g n = map_option l_data (getLayer g n)"

fun grid_add :: "grid_map \<Rightarrow> string \<Rightarrow> mat \<Rightarrow> int \<Rightarrow> grid_map" where
  "grid_add [] n d i = [\<lparr>l_name = n, l_data = d, l_interpolation = i\<rparr>]"
| "grid_add (l # ls) n d i =
     (if l_name l = n then \<lparr>l_name = n, l_data = d, l_interpolation = i\<rparr> # ls
      else l # grid_add ls n d i)"

fun grid_remove :: "grid_map \<Rightarrow> string \<Rightarrow> grid_map" where
  "grid_remove [] n = []"
| "grid_remove (l # ls) n = (if l_name l = n then ls else l # grid_remove ls n)"

definition grid_empty :: "grid_map \<Rightarrow> bool" where
  "grid_empty g = (g = [])"

text \<open>
  Modelled from the spec: \<^verbatim>\<open>Tile\<close> is declared outside the sources at hand. It is
  identified by (zoom level, x, y), owns a raster container behind a shared pointer
  (\<open>None\<close> is the null pointer that \<^verbatim>\<open>flushAll\<close> stores) and can be locked and unlocked.
\<close>

record tile =
  t_zoom_level :: int
  t_x :: int
  t_y :: int
  t_data :: "grid_map option"
  t_locked :: bool

text \<open>\<^verbatim>\<open>LayerMetaData{name, type, interpolation_flag}\<close>, as built in \<^verbatim>\<open>add\<close> (line 125).\<close>

record layer_meta_data =
  lm_name :: string
  lm_type :: int
  lm_interpolation_flag :: int

text \<open>\<^verbatim>\<open>CacheElement{timestamp, layer_meta, tile, was_written}\<close> (lines 153, 161, 167, 188).\<close>

record cache_element =
  timestamp :: int
  layer_meta :: "layer_meta_data list"
  tile :: tile
  was_written :: bool

text \<open>\<^verbatim>\<open>cv::Rect2i\<close>.\<close>

record rect =
  r_x :: int
  r_y :: int
  r_width :: int
  r_height :: int

section \<open>Failures\<close>

text \<open>
  Every way in which a call may end without returning normally is a value: the two
  exceptions the code throws, the exception of \<^verbatim>\<open>std::map::at\<close> and of a layer lookup, a
  read through a null pointer or of the first element of an empty vector, and a
  \<^verbatim>\<open>lock()\<close> on a tile that is already locked, which does not return in a sequential run.
  \<open>EndIteratorDeref\<close> is what \<^verbatim>\<open>updatePrediction\<close> reports when it assigns through an end
  iterator: the assignment is undefined and reaches no entry of the map.
\<close>

datatype failure =
  InvalidArgument string
| OutOfRange
| EndIteratorDeref
| NullPointerDeref
| EmptyVectorIndex
| WouldBlock

section \<open>The world outside the cache: disk, directories, history\<close>

text \<open>
  \<open>Saved f\<close> records a call \<^verbatim>\<open>io::saveImage(data, f)\<close>; \<open>Removed z x y n b\<close> records that
  layer \<open>n\<close> of tile \<open>(z, x, y)\<close> was removed from memory while the element's
  \<^verbatim>\<open>was_written\<close> flag had the value \<open>b\<close>. The history is a ghost record in program order;
  it is not a member of \<^verbatim>\<open>TileCache\<close>.
\<close>

datatype event =
  Saved string
| Removed int int int string bool

record world =
  disk :: "(string \<times> mat) list"
  dirs :: "string list"
  history :: "event list"

definition fileExists :: "string \<Rightarrow> world \<Rightarrow> bool" where
  "fileExists f w = (map_of (disk w) f \<noteq> None)"

definition loadImage :: "string \<Rightarrow> world \<Rightarrow> mat option" where
  "loadImage f w = map_of (disk w) f"

definition saveImage :: "mat \<Rightarrow> string \<Rightarrow> world \<Rightarrow> world" where
  "saveImage d f w = w\<lparr>disk := (f, d) # disk w, history := history w @ [Saved f]\<rparr>"

definition createDir :: "string \<Rightarrow> world \<Rightarrow> world" where
  "createDir p w = w\<lparr>dirs := dirs w @ [p]\<rparr>"

fun createDirectories :: "string \<Rightarrow> string list \<Rightarrow> string \<Rightarrow> world \<Rightarrow> world" where
  "createDirectories toplevel [] tile_tree w = w"
| "createDirectories toplevel (layer_name # layer_names) tile_tree w =
     createDirectories toplevel layer_names tile_tree
       (createDir (toplevel @ layer_name @ tile_tree) w)"

section \<open>File names\<close>

definition digit_char :: "nat \<Rightarrow> char" where
  "digit_char n = ''0123456789'' ! n"

fun digits :: "nat \<Rightarrow> string" where
  "digits n = (if n < 10 then [digit_char n] else digits (n div 10) @ [digit_char (n mod 10)])"

declare digits.simps [simp del]

text \<open>\<^verbatim>\<open>std::to_string(int)\<close>.\<close>

definition to_string :: "int \<Rightarrow> string" where
  "to_string i = (if i < 0 then CHR ''-'' # digits (nat (- i)) else digits (nat i))"

text \<open>
  OpenCV's depth codes and depth mask (macros of OpenCV, not of this repository):
  \<^verbatim>\<open>CV_8U = 0\<close>, \<^verbatim>\<open>CV_16U = 2\<close>, \<^verbatim>\<open>CV_32F = 5\<close>, \<^verbatim>\<open>CV_64F = 6\<close>,
  \<^verbatim>\<open>CV_MAT_DEPTH_MASK = 7\<close>.
\<close>

definition CV_8U :: int where "CV_8U = 0"
definition CV_16U :: int where "CV_16U = 2"
definition CV_32F :: int where "CV_32F = 5"
definition CV_64F :: int where "CV_64F = 6"
definition CV_MAT_DEPTH_MASK :: int where "CV_MAT_DEPTH_MASK = 7"

text \<open>
  The \<^verbatim>\<open>switch(type)\<close> of \<^verbatim>\<open>load\<close> (lines 289-305) and of \<^verbatim>\<open>write\<close> (lines 337-353):
  the extension of the file, or \<open>None\<close> in the \<^verbatim>\<open>default\<close> case, where the code throws.
\<close>

definition file_extension :: "int \<Rightarrow> string option" where
  "file_extension type =
     (if type = CV_8U then Some ''.png''
      else if type = CV_16U then Some ''.bin''
      else if type = CV_32F then Some ''.bin''
      else if type = CV_64F then Some ''.bin''
      else None)"

text \<open>The path of lines 281-285 and 329-333, before the extension is appended.\<close>

definition tile_path :: "string \<Rightarrow> string \<Rightarrow> tile \<Rightarrow> string" where
  "tile_path dir_toplevel name t =
     dir_toplevel @ ''/'' @ name @ ''/'' @ to_string (t_zoom_level t) @ ''/''
       @ to_string (t_x t) @ ''/'' @ to_string (t_y t)"

section \<open>Persistence: isCached, write, load, flush\<close>

text \<open>
  The functions on one element take the element and the world and return the failure, if
  any, with the element and the world as they are when the call ends: an exception leaves
  behind what was done before it was thrown.
\<close>

text \<open>\<^verbatim>\<open>isCached\<close> (lines 374-377); \<open>None\<close> when the data pointer is null.\<close>

definition isCached :: "cache_element \<Rightarrow> bool option" where
  "isCached element = map_option (\<lambda>g. \<not> grid_empty g) (t_data (tile element))"

text \<open>The loop of \<^verbatim>\<open>write\<close> (lines 325-358) over the remaining layers.\<close>

fun write_layers ::
  "string \<Rightarrow> layer_meta_data list \<Rightarrow> cache_element \<Rightarrow> world
     \<Rightarrow> failure option \<times> cache_element \<times> world" where
  "write_layers dir [] element w = (None, element, w)"
| "write_layers dir (meta # metas) element w =
     (case t_data (tile element) of
        None \<Rightarrow> (Some NullPointerDeref, element, w)
      | Some g \<Rightarrow>
          (case grid_get g (lm_name meta) of
             None \<Rightarrow> (Some OutOfRange, element, w)
           | Some data \<Rightarrow>
               (case file_extension (mat_type data AND CV_MAT_DEPTH_MASK) of
                  None \<Rightarrow>
                    (Some (InvalidArgument ''Error writing tile: data type unknown!''),
                     element, w)
                | Some ext \<Rightarrow>
                    write_layers dir metas (element\<lparr>was_written := True\<rparr>)
                      (saveImage data (tile_path dir (lm_name meta) (tile element) @ ext) w))))"

text \<open>\<^verbatim>\<open>write\<close> (lines 323-359); \<open>write\<close> is a keyword of Isabelle, hence the suffix.\<close>

definition write_element ::
  "string \<Rightarrow> cache_element \<Rightarrow> world \<Rightarrow> failure option \<times> cache_element \<times> world" where
  "write_element dir element w = write_layers dir (layer_meta element) element w"

text \<open>
  The loop of \<^verbatim>\<open>load\<close> (lines 279-320); the disk is only read. The test
  \<^verbatim>\<open>io::fileExists(filename)\<close> of line 307 fails exactly where \<open>loadImage\<close> finds no file.
\<close>

fun load_layers ::
  "string \<Rightarrow> layer_meta_data list \<Rightarrow> cache_element \<Rightarrow> world
     \<Rightarrow> failure option \<times> cache_element" where
  "load_layers dir [] element w = (None, element)"
| "load_layers dir (meta # metas) element w =
     (case file_extension (lm_type meta AND CV_MAT_DEPTH_MASK) of
        None \<Rightarrow> (Some (InvalidArgument ''Error reading tile: data type unknown!''), element)
      | Some ext \<Rightarrow>
          (case loadImage (tile_path dir (lm_name meta) (tile element) @ ext) w of
             None \<Rightarrow> (Some (InvalidArgument ''Error loading tile.''), element)
           | Some data \<Rightarrow>
               (case t_data (tile element) of
                  None \<Rightarrow> (Some NullPointerDeref, element)
                | Some g \<Rightarrow>
                    load_layers dir metas
                      (element\<lparr>tile := (tile element)
                         \<lparr>t_data := Some (grid_add g (lm_name meta) data
                                            (lm_interpolation_flag meta))\<rparr>\<rparr>) w)))"

definition load :: "string \<Rightarrow> cache_element \<Rightarrow> world \<Rightarrow> failure option \<times> cache_element" where
  "load dir element w = load_layers dir (layer_meta element) element w"

text \<open>The loop of \<^verbatim>\<open>flush\<close> (lines 366-369) over the remaining layers.\<close>

fun remove_layers ::
  "layer_meta_data list \<Rightarrow> cache_element \<Rightarrow> world
     \<Rightarrow> failure option \<times> cache_element \<times> world" where
  "remove_layers [] element w = (None, element, w)"
| "remove_layers (meta # metas) element w =
     (case t_data (tile element) of
        None \<Rightarrow> (Some NullPointerDeref, element, w)
      | Some g \<Rightarrow>
          remove_layers metas
            (element\<lparr>tile := (tile element)\<lparr>t_data := Some (grid_remove g (lm_name meta))\<rparr>\<rparr>)
            (w\<lparr>history := history w @
                 [Removed (t_zoom_level (tile element)) (t_x (tile element))
                    (t_y (tile element)) (lm_name meta) (was_written element)]\<rparr>))"

text \<open>\<^verbatim>\<open>flush\<close> (lines 361-372).\<close>

definition flush ::
  "string \<Rightarrow> cache_element \<Rightarrow> world \<Rightarrow> failure option \<times> cache_element \<times> world" where
  "flush dir element w =
     (case (if \<not> was_written element then write_element dir element w else (None, element, w)) of
        (Some f, element1, w1) \<Rightarrow> (Some f, element1, w1)
      | (None, element1, w1) \<Rightarrow> remove_layers (layer_meta element1) element1 w1)"

section \<open>The cache and its state\<close>

text \<open>
  A \<^verbatim>\<open>std::map<int, V>\<close> is the list of its entries in ascending key order, which is the
  order in which a range-based \<^verbatim>\<open>for\<close> visits them. \<open>map_of\<close> is \<^verbatim>\<open>find\<close>
  (\<open>None\<close> for the end iterator); \<open>map_put\<close> is an assignment through \<^verbatim>\<open>operator[]\<close> or
  through a valid iterator.
\<close>

fun map_put :: "int \<Rightarrow> 'v \<Rightarrow> (int \<times> 'v) list \<Rightarrow> (int \<times> 'v) list" where
  "map_put k v [] = [(k, v)]"
| "map_put k v ((k', v') # kvs) =
     (if k = k' then (k, v) # kvs
      else if k < k' then (k, v) # (k', v') # kvs
      else (k', v') # map_put k v kvs)"

type_synonym column = "(int \<times> cache_element) list"
type_synonym element_grid = "(int \<times> column) list"
type_synonym cache_map = "(int \<times> element_grid) list"

text \<open>
  The members of \<^verbatim>\<open>TileCache\<close> that the functions below read or write, and the world
  outside (\<open>env\<close>). The mutexes are left out, but for the lock of a tile.
\<close>

record state =
  dir_toplevel :: string
  has_init_directories :: bool
  do_update :: bool
  cache :: cache_map
  roi_prev_request :: "int \<rightharpoonup> rect"
  roi_prediction :: "int \<rightharpoonup> rect"
  env :: world

text \<open>The element stored at \<open>(zoom, x, y)\<close>, found as \<^verbatim>\<open>get\<close> finds it (lines 204-220).\<close>

definition lookup2 :: "element_grid \<Rightarrow> int \<Rightarrow> int \<Rightarrow> cache_element option" where
  "lookup2 g x y = (case map_of g x of None \<Rightarrow> None | Some col \<Rightarrow> map_of col y)"

definition lookup3 :: "cache_map \<Rightarrow> int \<Rightarrow> int \<Rightarrow> int \<Rightarrow> cache_element option" where
  "lookup3 c zoom x y = (case map_of c zoom of None \<Rightarrow> None | Some g \<Rightarrow> lookup2 g x y)"

section \<open>ROI prediction\<close>

text \<open>
  \<^verbatim>\<open>updatePrediction\<close> (lines 388-412). Line 411 assigns through
  \<^verbatim>\<open>it_roi_prev_request\<close> whether or not it is the end iterator; lines 405-408 assign
  through \<^verbatim>\<open>it_roi_prediction\<close> without a test.
\<close>

definition updatePrediction :: "int \<Rightarrow> rect \<Rightarrow> state \<Rightarrow> failure option \<times> state" where
  "updatePrediction zoom_level roi_current s =
     (let it_roi_prev_request = roi_prev_request s zoom_level in
      case (case it_roi_prev_request of
              None \<Rightarrow>
                (None, s\<lparr>roi_prediction := (roi_prediction s)(zoom_level \<mapsto> roi_current)\<rparr>)
            | Some prev \<Rightarrow>
                (case roi_prediction s zoom_level of
                   None \<Rightarrow> (Some EndIteratorDeref, s)
                 | Some pred \<Rightarrow>
                     (None, s\<lparr>roi_prediction := (roi_prediction s)(zoom_level \<mapsto>
                        pred\<lparr>r_x := r_x roi_current + (r_x roi_current - r_x prev),
                             r_y := r_y roi_current + (r_y roi_current - r_y prev),
                             r_width := r_width roi_current
                                          + (r_width roi_current - r_width prev),
                             r_height := r_height roi_current
                                          + (r_height roi_current - r_height prev)\<rparr>)\<rparr>)))
      of
        (Some f, s1) \<Rightarrow> (Some f, s1)
      | (None, s1) \<Rightarrow>
          (case it_roi_prev_request of
             None \<Rightarrow> (Some EndIteratorDeref, s1)
           | Some prev \<Rightarrow>
               (None, s1\<lparr>roi_prev_request := (roi_prev_request s1)(zoom_level \<mapsto> roi_current)\<rparr>)))"

section \<open>add\<close>

definition new_element :: "int \<Rightarrow> layer_meta_data list \<Rightarrow> tile \<Rightarrow> cache_element" where
  "new_element ts lm t = \<lparr>timestamp = ts, layer_meta = lm, tile = t, was_written = False\<rparr>"

text \<open>Lines 120-126: the meta data of the layers of the first tile.\<close>

definition layer_meta_of :: "grid_map \<Rightarrow> layer_meta_data list" where
  "layer_meta_of g =
     List.map_filter
       (\<lambda>layer_name. map_option
          (\<lambda>l. \<lparr>lm_name = layer_name, lm_type = mat_type (l_data l),
                lm_interpolation_flag = l_interpolation l\<rparr>)
          (getLayer g layer_name))
       (getAllLayerNames g)"

text \<open>
  The loop of lines 143-171, where the zoom level exists and \<open>g\<close> is \<^verbatim>\<open>it_zoom->second\<close>.
  The three cases of the code store the same element at \<open>(x, y)\<close>; only the first one
  creates directories. The element shares the tile, which is locked during the
  iteration only.
\<close>

fun add_tiles_existing ::
  "string \<Rightarrow> string list \<Rightarrow> int \<Rightarrow> int \<Rightarrow> layer_meta_data list \<Rightarrow> tile list
     \<Rightarrow> element_grid \<Rightarrow> world \<Rightarrow> failure option \<times> element_grid \<times> world" where
  "add_tiles_existing dir layer_names zoom_level ts lm [] g w = (None, g, w)"
| "add_tiles_existing dir layer_names zoom_level ts lm (t # tiles) g w =
     (if t_locked t then (Some WouldBlock, g, w)
      else
        (case map_of g (t_x t) of
           None \<Rightarrow>
             add_tiles_existing dir layer_names zoom_level ts lm tiles
               (map_put (t_x t) (map_put (t_y t) (new_element ts lm t) []) g)
               (createDirectories (dir @ ''/'') layer_names
                  (''/'' @ to_string zoom_level @ ''/'' @ to_string (t_x t)) w)
         | Some col \<Rightarrow>
             add_tiles_existing dir layer_names zoom_level ts lm tiles
               (map_put (t_x t) (map_put (t_y t) (new_element ts lm t) col) g) w))"

text \<open>
  The loop of lines 179-190, where the zoom level does not exist. Line 184 looks the
  column up in \<^verbatim>\<open>it_zoom->second\<close> although \<^verbatim>\<open>it_zoom\<close> is the end iterator. The outcome
  of this read is not determined by the program; it is used in the test of line 185 only,
  which decides whether the directories of the column are created. \<open>column_absent x\<close>
  stands for the outcome of the test for column \<open>x\<close>. Line 188 stores the tile in the
  local grid whatever the outcome.
\<close>

fun add_tiles_new ::
  "(int \<Rightarrow> bool) \<Rightarrow> string \<Rightarrow> string list \<Rightarrow> int \<Rightarrow> int \<Rightarrow> layer_meta_data list
     \<Rightarrow> tile list \<Rightarrow> element_grid \<Rightarrow> world \<Rightarrow> failure option \<times> element_grid \<times> world" where
  "add_tiles_new column_absent dir layer_names zoom_level ts lm [] tile_grid w =
     (None, tile_grid, w)"
| "add_tiles_new column_absent dir layer_names zoom_level ts lm (t # tiles) tile_grid w =
     (if t_locked t then (Some WouldBlock, tile_grid, w)
      else
        add_tiles_new column_absent dir layer_names zoom_level ts lm tiles
          (map_put (t_x t)
             (map_put (t_y t) (new_element ts lm t)
                (case map_of tile_grid (t_x t) of None \<Rightarrow> [] | Some col \<Rightarrow> col))
             tile_grid)
          (if column_absent (t_x t)
           then createDirectories (dir @ ''/'') layer_names
                  (''/'' @ to_string zoom_level @ ''/'' @ to_string (t_x t)) w
           else w))"

text \<open>
  Lines 134-192: the tiles are stored; \<open>ts\<close> is the clock reading of line 136. For a new
  zoom level, line 191 assigns the local grid to \<^verbatim>\<open>_cache[zoom_level]\<close> once the loop is
  through.
\<close>

definition add_store ::
  "int \<Rightarrow> tile list \<Rightarrow> string list \<Rightarrow> layer_meta_data list \<Rightarrow> int \<Rightarrow> (int \<Rightarrow> bool) \<Rightarrow> state
     \<Rightarrow> failure option \<times> state" where
  "add_store zoom_level tiles layer_names lm ts column_absent s =
     (case map_of (cache s) zoom_level of
        Some g \<Rightarrow>
          (case add_tiles_existing (dir_toplevel s) layer_names zoom_level ts lm tiles g (env s) of
             (r, g', w') \<Rightarrow> (r, s\<lparr>cache := map_put zoom_level g' (cache s), env := w'\<rparr>))
      | None \<Rightarrow>
          (case add_tiles_new column_absent (dir_toplevel s) layer_names zoom_level ts lm tiles []
                  (createDirectories (dir_toplevel s @ ''/'') layer_names
                     (''/'' @ to_string zoom_level) (env s)) of
             (Some f, tile_grid, w') \<Rightarrow> (Some f, s\<lparr>env := w'\<rparr>)
           | (None, tile_grid, w') \<Rightarrow>
               (None, s\<lparr>cache := map_put zoom_level tile_grid (cache s), env := w'\<rparr>)))"

text \<open>
  \<^verbatim>\<open>add\<close> (lines 113-200). \<open>updatePrediction\<close> throws nothing: what it reports is an
  assignment through an end iterator, which inserts no key into a map. The call of line
  196 returns with the maps as \<open>updatePrediction\<close> leaves them, and \<^verbatim>\<open>add\<close> goes on to set
  \<^verbatim>\<open>_do_update\<close> (line 199) and returns.
\<close>

definition add ::
  "int \<Rightarrow> tile list \<Rightarrow> rect \<Rightarrow> int \<Rightarrow> (int \<Rightarrow> bool) \<Rightarrow> state \<Rightarrow> failure option \<times> state" where
  "add zoom_level tiles roi_idx ts column_absent s =
     (case tiles of
        [] \<Rightarrow> (Some EmptyVectorIndex, s)
      | t0 # _ \<Rightarrow>
          (case t_data t0 of
             None \<Rightarrow> (Some NullPointerDeref, s)
           | Some g0 \<Rightarrow>
               (let layer_names = getAllLayerNames g0;
                    lm = layer_meta_of g0;
                    s1 = (if \<not> has_init_directories s
                          then s\<lparr>has_init_directories := True,
                                 env := createDirectories (dir_toplevel s @ ''/'')
                                          layer_names [] (env s)\<rparr>
                          else s)
                in case add_store zoom_level tiles layer_names lm ts column_absent s1 of
                     (Some f, s2) \<Rightarrow> (Some f, s2)
                   | (None, s2) \<Rightarrow>
                       (case updatePrediction zoom_level roi_idx s2 of
                          (u, s3) \<Rightarrow> (None, s3\<lparr>do_update := True\<rparr>)))))"

section \<open>get\<close>

definition put_element :: "int \<Rightarrow> int \<Rightarrow> int \<Rightarrow> cache_element \<Rightarrow> cache_map \<Rightarrow> cache_map" where
  "put_element zoom x y element c =
     (case map_of c zoom of
        None \<Rightarrow> c
      | Some g \<Rightarrow>
          (case map_of g x of
             None \<Rightarrow> c
           | Some col \<Rightarrow> map_put zoom (map_put x (map_put y element col) g) c))"

text \<open>
  \<^verbatim>\<open>get\<close> (lines 202-233). \<open>Inr None\<close> is the null pointer of the three early returns;
  \<open>Inr (Some t)\<close> is the tile as it is handed to the caller. The element found is changed
  in place (\<open>put_element\<close>).
\<close>

definition get :: "int \<Rightarrow> int \<Rightarrow> int \<Rightarrow> state \<Rightarrow> (failure + tile option) \<times> state" where
  "get tx ty zoom_level s =
     (case map_of (cache s) zoom_level of
        None \<Rightarrow> (Inr None, s)
      | Some g \<Rightarrow>
          (case map_of g tx of
             None \<Rightarrow> (Inr None, s)
           | Some col \<Rightarrow>
               (case map_of col ty of
                  None \<Rightarrow> (Inr None, s)
                | Some element \<Rightarrow>
                    (if t_locked (tile element) then (Inl WouldBlock, s)
                     else
                       (let e1 = element\<lparr>tile := (tile element)\<lparr>t_locked := True\<rparr>\<rparr> in
                        case isCached e1 of
                          None \<Rightarrow>
                            (Inl NullPointerDeref,
                             s\<lparr>cache := put_element zoom_level tx ty e1 (cache s)\<rparr>)
                        | Some True \<Rightarrow>
                            (Inr (Some (tile e1)),
                             s\<lparr>cache := put_element zoom_level tx ty e1 (cache s)\<rparr>)
                        | Some False \<Rightarrow>
                            (case load (dir_toplevel s) e1 (env s) of
                               (Some f, e2) \<Rightarrow>
                                 (Inl f, s\<lparr>cache := put_element zoom_level tx ty e2 (cache s)\<rparr>)
                             | (None, e2) \<Rightarrow>
                                 (Inr (Some (tile e2)),
                                  s\<lparr>cache := put_element zoom_level tx ty e2 (cache s)\<rparr>)))))))"


section \<open>The worker cycle and flushAll\<close>

text \<open>
  A range-based \<^verbatim>\<open>for\<close> over the entries of a map whose body may change the value and
  the world: the loop ends at the first failure, with the entries after it untouched.
\<close>

fun for_each ::
  "(int \<Rightarrow> 'v \<Rightarrow> world \<Rightarrow> failure option \<times> 'v \<times> world) \<Rightarrow> (int \<times> 'v) list \<Rightarrow> world
     \<Rightarrow> failure option \<times> (int \<times> 'v) list \<times> world" where
  "for_each body [] w = (None, [], w)"
| "for_each body ((k, v) # kvs) w =
     (case body k v w of
        (Some f, v', w') \<Rightarrow> (Some f, (k, v') # kvs, w')
      | (None, v', w') \<Rightarrow>
          (case for_each body kvs w' of (r, kvs', w'') \<Rightarrow> (r, (k, v') # kvs', w'')))"

text \<open>The test of lines 88-89.\<close>

definition outside_roi :: "rect \<Rightarrow> int \<Rightarrow> int \<Rightarrow> bool" where
  "outside_roi roi tx ty =
     (tx < r_x roi \<or> tx > r_x roi + r_width roi
      \<or> ty < r_y roi \<or> ty > r_y roi + r_height roi)"

text \<open>The body of the innermost loop of \<^verbatim>\<open>process\<close> (lines 75-94).\<close>

definition process_element ::
  "rect \<Rightarrow> string \<Rightarrow> cache_element \<Rightarrow> world \<Rightarrow> failure option \<times> cache_element \<times> world" where
  "process_element roi dir element w =
     (if t_locked (tile element) then (Some WouldBlock, element, w)
      else
        (let e0 = element\<lparr>tile := (tile element)\<lparr>t_locked := True\<rparr>\<rparr> in
         case (if \<not> was_written e0 then write_element dir e0 w else (None, e0, w)) of
           (Some f, e1, w1) \<Rightarrow> (Some f, e1, w1)
         | (None, e1, w1) \<Rightarrow>
             (case isCached e1 of
                None \<Rightarrow> (Some NullPointerDeref, e1, w1)
              | Some cached \<Rightarrow>
                  (case (if cached \<and> outside_roi roi (t_x (tile e1)) (t_y (tile e1))
                         then flush dir e1 w1 else (None, e1, w1)) of
                     (Some f, e2, w2) \<Rightarrow> (Some f, e2, w2)
                   | (None, e2, w2) \<Rightarrow>
                       (None, e2\<lparr>tile := (tile e2)\<lparr>t_locked := False\<rparr>\<rparr>, w2)))))"

text \<open>The three loops of \<^verbatim>\<open>process\<close> (lines 68-97); line 70 is \<^verbatim>\<open>std::map::at\<close>.\<close>

definition process_column ::
  "rect \<Rightarrow> string \<Rightarrow> column \<Rightarrow> world \<Rightarrow> failure option \<times> column \<times> world" where
  "process_column roi dir = for_each (\<lambda>y. process_element roi dir)"

definition process_grid ::
  "rect \<Rightarrow> string \<Rightarrow> element_grid \<Rightarrow> world \<Rightarrow> failure option \<times> element_grid \<times> world" where
  "process_grid roi dir = for_each (\<lambda>x. process_column roi dir)"

definition process_zoom ::
  "(int \<rightharpoonup> rect) \<Rightarrow> string \<Rightarrow> int \<Rightarrow> element_grid \<Rightarrow> world
     \<Rightarrow> failure option \<times> element_grid \<times> world" where
  "process_zoom rp dir zoom cached_elements_zoom w =
     (case rp zoom of
        None \<Rightarrow> (Some OutOfRange, cached_elements_zoom, w)
      | Some roi \<Rightarrow> process_grid roi dir cached_elements_zoom w)"

definition process_cache ::
  "(int \<rightharpoonup> rect) \<Rightarrow> string \<Rightarrow> cache_map \<Rightarrow> world \<Rightarrow> failure option \<times> cache_map \<times> world" where
  "process_cache rp dir = for_each (process_zoom rp dir)"

text \<open>
  \<^verbatim>\<open>process\<close> (lines 49-106). In a sequential run \<^verbatim>\<open>try_lock\<close> succeeds. \<open>Inr b\<close> is the
  returned \<^verbatim>\<open>has_processed\<close>; \<open>Inl f\<close> is a failure that leaves \<^verbatim>\<open>process\<close>, which has no
  handler.
\<close>

definition process :: "state \<Rightarrow> (failure + bool) \<times> state" where
  "process s =
     (if do_update s then
        (case process_cache (roi_prediction s) (dir_toplevel s) (cache s) (env s) of
           (Some f, c, w) \<Rightarrow> (Inl f, s\<lparr>do_update := False, cache := c, env := w\<rparr>)
         | (None, c, w) \<Rightarrow> (Inr True, s\<lparr>do_update := False, cache := c, env := w\<rparr>))
      else (Inr False, s))"

text \<open>The body of the loop of \<^verbatim>\<open>flushAll\<close> (lines 247-256).\<close>

definition flushAll_element ::
  "string \<Rightarrow> cache_element \<Rightarrow> world \<Rightarrow> failure option \<times> cache_element \<times> world" where
  "flushAll_element dir element w =
     (if t_locked (tile element) then (Some WouldBlock, element, w)
      else
        (let e0 = element\<lparr>tile := (tile element)\<lparr>t_locked := True\<rparr>\<rparr> in
         case (if \<not> was_written e0 then write_element dir e0 w else (None, e0, w)) of
           (Some f, e1, w1) \<Rightarrow> (Some f, e1, w1)
         | (None, e1, w1) \<Rightarrow>
             (None, e1\<lparr>tile := (tile e1)\<lparr>t_data := None, t_locked := False\<rparr>\<rparr>, w1)))"

text \<open>\<^verbatim>\<open>flushAll\<close> (lines 235-261).\<close>

definition flushAll :: "state \<Rightarrow> failure option \<times> state" where
  "flushAll s =
     (case for_each
             (\<lambda>zoom. for_each (\<lambda>x. for_each (\<lambda>y. flushAll_element (dir_toplevel s))))
             (cache s) (env s) of
        (r, c, w) \<Rightarrow> (r, s\<lparr>cache := c, env := w\<rparr>))"

text \<open>A freshly constructed cache (lines 29-36) over an empty disk.\<close>

definition init_state :: "string \<Rightarrow> state" where
  "init_state output_directory =
     \<lparr>dir_toplevel = output_directory, has_init_directories = False, do_update = False,
      cache = [], roi_prev_request = Map.empty, roi_prediction = Map.empty,
      env = \<lparr>disk = [], dirs = [], history = []\<rparr>\<rparr>"

section \<open>Views of an element\<close>

text \<open>An element without the raster container and the lock of its tile.\<close>

definition without_raster :: "cache_element \<Rightarrow> cache_element" where
  "without_raster element = element\<lparr>tile := (tile element)\<lparr>t_data := None, t_locked := False\<rparr>\<rparr>"



section \<open>Rectangle membership\<close>

text \<open>
  Membership of a point in a \<^verbatim>\<open>cv::Rect2i\<close> as \<^verbatim>\<open>cv::Rect_::contains\<close> of OpenCV defines it
  (a function of OpenCV, not of this repository): the left and top edges belong to the
  rectangle, the right and bottom edges do not.
\<close>

definition rect_contains :: "rect \<Rightarrow> int \<Rightarrow> int \<Rightarrow> bool" where
  "rect_contains r x y =
     (r_x r \<le> x \<and> x < r_x r + r_width r \<and> r_y r \<le> y \<and> y < r_y r + r_height r)"

section \<open>Predicates on the history\<close>

definition is_saved :: "event \<Rightarrow> bool" where
  "is_saved ev = (case ev of Saved f \<Rightarrow> True | Removed z x y n b \<Rightarrow> False)"

text \<open>A removal of a layer of tile \<open>t\<close> that found \<^verbatim>\<open>was_written\<close> set.\<close>

definition removed_written :: "tile \<Rightarrow> event \<Rightarrow> bool" where
  "removed_written t ev =
     (case ev of
        Saved f \<Rightarrow> False
      | Removed z x y n b \<Rightarrow> z = t_zoom_level t \<and> x = t_x t \<and> y = t_y t \<and> b)"

definition written_when_removed :: "event \<Rightarrow> bool" where
  "written_when_removed ev = (case ev of Saved f \<Rightarrow> True | Removed z x y n b \<Rightarrow> b)"

definition appends :: "(event \<Rightarrow> bool) \<Rightarrow> world \<Rightarrow> world \<Rightarrow> bool" where
  "appends P w w' = (\<exists>evs. history w' = history w @ evs \<and> (\<forall>ev\<in>set evs. P ev))"

definition saves_then_removes :: "tile \<Rightarrow> world \<Rightarrow> world \<Rightarrow> bool" where
  "saves_then_removes t w w' =
     (\<exists>saves removes. history w' = history w @ saves @ removes
        \<and> (\<forall>ev\<in>set saves. is_saved ev) \<and> (\<forall>ev\<in>set removes. removed_written t ev))"

section \<open>Example tiles and states\<close>

definition ex_roi :: rect where
  "ex_roi = \<lparr>r_x = 0, r_y = 0, r_width = 1, r_height = 1\<rparr>"

text \<open>A layer of type \<^verbatim>\<open>CV_8UC3\<close> (16) and a layer of type \<^verbatim>\<open>CV_32S\<close> (4).\<close>

definition ex_color :: layer where
  "ex_color = \<lparr>l_name = ''color'', l_data = \<lparr>mat_type = 16, mat_bytes = [1, 2, 3]\<rparr>,
                l_interpolation = 1\<rparr>"

definition ex_labels :: layer where
  "ex_labels = \<lparr>l_name = ''labels'', l_data = \<lparr>mat_type = 4, mat_bytes = [7]\<rparr>,
                 l_interpolation = 0\<rparr>"

definition ex_tile :: "int \<Rightarrow> int \<Rightarrow> grid_map \<Rightarrow> tile" where
  "ex_tile x y g = \<lparr>t_zoom_level = 5, t_x = x, t_y = y, t_data = Some g, t_locked = False\<rparr>"

definition ex_element :: "int \<Rightarrow> int \<Rightarrow> grid_map \<Rightarrow> bool \<Rightarrow> cache_element" where
  "ex_element x y g b = (new_element 0 (layer_meta_of g) (ex_tile x y g))\<lparr>was_written := b\<rparr>"

text \<open>A state with cache \<open>c\<close>, the predicted ROI \<open>ex_roi\<close> at zoom level 5 and the update flag set.\<close>

definition ex_state :: "cache_map \<Rightarrow> state" where
  "ex_state c =
     (init_state ''out'')\<lparr>do_update := True, cache := c, roi_prediction := [5 \<mapsto> ex_roi]\<rparr>"

text \<open>Two written, cached elements on the far edges of \<open>ex_roi\<close>: at (0, 1) and at (1, 0).\<close>

definition ex_edge_cache :: cache_map where
  "ex_edge_cache =
     [(5, [(0, [(1, ex_element 0 1 [ex_color] True)]),
           (1, [(0, ex_element 1 0 [ex_color] True)])])]"

text \<open>
  A column of two unwritten elements: the first has a layer of type \<^verbatim>\<open>CV_32S\<close>, which
  \<^verbatim>\<open>write\<close> rejects; the second can be written.
\<close>

definition ex_failing_state :: state where
  "ex_failing_state =
     ex_state [(5, [(0, [(0, ex_element 0 0 [ex_labels] False),
                         (1, ex_element 0 1 [ex_color] False)])])]"

text \<open>
  States that the calls of the cache reach from a freshly constructed cache. In the
  examples the test of line 185 finds every column absent.
\<close>

definition ex_absent :: "int \<Rightarrow> bool" where
  "ex_absent column = True"

definition ex_added_state :: "int \<Rightarrow> int \<Rightarrow> grid_map \<Rightarrow> state" where
  "ex_added_state x y g =
     snd (add 5 [ex_tile x y g] ex_roi 0 ex_absent (init_state ''out''))"

text \<open>Tile (2, 0) is added and a cycle of the worker has run: the tile is outside \<open>ex_roi\<close>.\<close>

definition ex_cycled_state :: state where
  "ex_cycled_state = snd (process (ex_added_state 2 0 [ex_color]))"



text \<open>Tile (2, 0) is added and \<^verbatim>\<open>flushAll\<close> is called.\<close>

definition ex_flushed_state :: state where
  "ex_flushed_state = snd (flushAll (ex_added_state 2 0 [ex_color]))"

section \<open>Evaluation of the examples\<close>

lemmas cv_defs = CV_8U_def CV_16U_def CV_32F_def CV_64F_def CV_MAT_DEPTH_MASK_def

lemmas ex_defs = ex_roi_def ex_color_def ex_labels_def ex_tile_def ex_element_def ex_state_def
  ex_edge_cache_def ex_failing_state_def
  init_state_def new_element_def layer_meta_of_def getAllLayerNames_def getLayer_def
  grid_get_def grid_empty_def List.map_filter_def

lemmas path_defs = tile_path_def to_string_def digits.simps digit_char_def file_extension_def
  cv_defs

lemmas io_defs = saveImage_def loadImage_def fileExists_def createDir_def

section \<open>The worker removes a layer only when the flag is set\<close>

lemma appends_refl: "appends P w w"
  by (simp add: appends_def)

lemma appends_trans: "appends P w w1 \<Longrightarrow> appends P w1 w2 \<Longrightarrow> appends P w w2"
  unfolding appends_def by (metis UnE append.assoc set_append)

lemma appends_mono: "appends P w w' \<Longrightarrow> (\<And>ev. P ev \<Longrightarrow> Q ev) \<Longrightarrow> appends Q w w'"
  unfolding appends_def by blast

lemma write_layers_props:
  "write_layers dir ms e w = (r, e', w') \<Longrightarrow>
     appends is_saved w w' \<and> tile e' = tile e \<and> layer_meta e' = layer_meta e
     \<and> timestamp e' = timestamp e
     \<and> (was_written e \<longrightarrow> was_written e')
     \<and> (r = None \<and> ms \<noteq> [] \<longrightarrow> was_written e')
     \<and> (ms = [] \<longrightarrow> e' = e \<and> w' = w)"
proof (induction ms arbitrary: e w)
  case Nil
  then show ?case by (auto simp add: appends_refl)
next
  case (Cons m ms)
  show ?case
  proof (cases "t_data (tile e)")
    case None
    with Cons.prems show ?thesis by (auto simp add: appends_refl)
  next
    case (Some g)
    show ?thesis
    proof (cases "grid_get g (lm_name m)")
      case None
      with Some Cons.prems show ?thesis by (auto simp add: appends_refl)
    next
      case (Some d)
      note d = this
      show ?thesis
      proof (cases "file_extension (mat_type d AND CV_MAT_DEPTH_MASK)")
        case None
        with d \<open>t_data (tile e) = Some g\<close> Cons.prems show ?thesis by (auto simp add: appends_refl)
      next
        case (Some ext)
        let ?e1 = "e\<lparr>was_written := True\<rparr>"
        let ?w1 = "saveImage d (tile_path dir (lm_name m) (tile e) @ ext) w"
        from Some d \<open>t_data (tile e) = Some g\<close> Cons.prems
        have rec: "write_layers dir ms ?e1 ?w1 = (r, e', w')" by simp
        have step: "appends is_saved w ?w1"
          by (simp add: appends_def saveImage_def is_saved_def)
        from Cons.IH[OF rec] step show ?thesis
          by (auto intro: appends_trans)
      qed
    qed
  qed
qed

lemma remove_layers_props:
  "remove_layers ms e w = (r, e', w') \<Longrightarrow>
     (was_written e \<longrightarrow> appends (removed_written (tile e)) w w')
     \<and> was_written e' = was_written e \<and> layer_meta e' = layer_meta e
     \<and> timestamp e' = timestamp e
     \<and> t_zoom_level (tile e') = t_zoom_level (tile e) \<and> t_x (tile e') = t_x (tile e)
     \<and> t_y (tile e') = t_y (tile e) \<and> t_locked (tile e') = t_locked (tile e)
     \<and> (ms = [] \<longrightarrow> e' = e \<and> w' = w)"
proof (induction ms arbitrary: e w)
  case Nil
  then show ?case by (auto simp add: appends_refl)
next
  case (Cons m ms)
  show ?case
  proof (cases "t_data (tile e)")
    case None
    with Cons.prems show ?thesis by (auto simp add: appends_refl)
  next
    case (Some g)
    let ?e1 = "e\<lparr>tile := (tile e)\<lparr>t_data := Some (grid_remove g (lm_name m))\<rparr>\<rparr>"
    let ?w1 = "w\<lparr>history := history w @
                 [Removed (t_zoom_level (tile e)) (t_x (tile e))
                    (t_y (tile e)) (lm_name m) (was_written e)]\<rparr>"
    from Some Cons.prems have rec: "remove_layers ms ?e1 ?w1 = (r, e', w')" by simp
    have step: "was_written e \<Longrightarrow> appends (removed_written (tile e)) w ?w1"
      by (simp add: appends_def removed_written_def)
    have same: "removed_written (tile ?e1) = removed_written (tile e)"
      by (auto simp add: removed_written_def fun_eq_iff split: event.splits)
    from Cons.IH[OF rec] step same show ?thesis
      by (auto intro: appends_trans)
  qed
qed

lemma saves_then_removesI:
  "appends is_saved w w1 \<Longrightarrow> appends (removed_written t) w1 w2 \<Longrightarrow> saves_then_removes t w w2"
  unfolding appends_def saves_then_removes_def by (metis append.assoc)

lemma flush_props:
  assumes "flush dir e w = (r, e', w')"
  shows "saves_then_removes (tile e) w w'"
    and "was_written e \<Longrightarrow> appends (removed_written (tile e)) w w'"
    and "layer_meta e = [] \<Longrightarrow> w' = w"
proof -
  show "saves_then_removes (tile e) w w'"
  proof (cases "was_written e")
    case True
    with assms have "remove_layers (layer_meta e) e w = (r, e', w')" by (simp add: flush_def)
    from remove_layers_props[OF this] True have "appends (removed_written (tile e)) w w'" by simp
    with appends_refl show ?thesis by (rule saves_then_removesI)
  next
    case False
    obtain r1 e1 w1 where wr: "write_element dir e w = (r1, e1, w1)" by (cases "write_element dir e w") auto
    then have wl: "write_layers dir (layer_meta e) e w = (r1, e1, w1)" by (simp add: write_element_def)
    note wp = write_layers_props[OF wl]
    show ?thesis
    proof (cases r1)
      case (Some f)
      with assms False wr have "w' = w1" by (simp add: flush_def)
      with wp appends_refl show ?thesis by (auto intro: saves_then_removesI)
    next
      case None
      with assms False wr have rm: "remove_layers (layer_meta e1) e1 w1 = (r, e', w')"
        by (simp add: flush_def)
      note rp = remove_layers_props[OF rm]
      show ?thesis
      proof (cases "layer_meta e = []")
        case True
        with wp rp have "w' = w" by simp
        then show ?thesis by (simp add: saves_then_removes_def)
      next
        case False
        with wp None have "was_written e1" by simp
        with rp wp have "appends (removed_written (tile e)) w1 w'" by simp
        with wp show ?thesis by (auto intro: saves_then_removesI)
      qed
    qed
  qed
next
  assume ww: "was_written e"
  with assms have "remove_layers (layer_meta e) e w = (r, e', w')" by (simp add: flush_def)
  from remove_layers_props[OF this] ww show "appends (removed_written (tile e)) w w'" by simp
next
  assume em: "layer_meta e = []"
  show "w' = w"
  proof (cases "was_written e")
    case True
    with assms em show ?thesis by (simp add: flush_def)
  next
    case False
    with assms em show ?thesis by (simp add: flush_def write_element_def)
  qed
qed


lemma removed_written_coords:
  "t_zoom_level t' = t_zoom_level t \<Longrightarrow> t_x t' = t_x t \<Longrightarrow> t_y t' = t_y t
     \<Longrightarrow> removed_written t' = removed_written t"
  by (auto simp add: removed_written_def fun_eq_iff split: event.splits)

lemma saves_then_removes_refl: "saves_then_removes t w w"
  by (simp add: saves_then_removes_def)

lemma process_element_history:
  assumes "process_element roi dir e w = (r, e', w')"
  shows "saves_then_removes (tile e) w w'"
proof (cases "t_locked (tile e)")
  case True
  with assms show ?thesis by (simp add: process_element_def saves_then_removes_refl)
next
  case False
  define e0 where "e0 = e\<lparr>tile := (tile e)\<lparr>t_locked := True\<rparr>\<rparr>"
  have t0: "removed_written (tile e0) = removed_written (tile e)"
    by (rule removed_written_coords) (simp_all add: e0_def)
  have str0: "saves_then_removes (tile e0) = saves_then_removes (tile e)"
    by (simp add: saves_then_removes_def t0 fun_eq_iff)
  obtain r1 e1 w1 where first:
    "(if \<not> was_written e0 then write_element dir e0 w else (None, e0, w)) = (r1, e1, w1)"
    by (metis prod_cases3)
  have a1: "appends is_saved w w1" and t1: "tile e1 = tile e0" and m1: "layer_meta e1 = layer_meta e0"
    and wr1: "r1 = None \<Longrightarrow> layer_meta e0 \<noteq> [] \<Longrightarrow> was_written e1"
    and nil1: "layer_meta e0 = [] \<Longrightarrow> w1 = w"
  proof -
    show "appends is_saved w w1" using first write_layers_props[of dir "layer_meta e0" e0 w r1 e1 w1]
      by (auto simp add: write_element_def appends_refl split: if_splits)
    show "tile e1 = tile e0" using first write_layers_props[of dir "layer_meta e0" e0 w r1 e1 w1]
      by (auto simp add: write_element_def split: if_splits)
    show "layer_meta e1 = layer_meta e0" using first write_layers_props[of dir "layer_meta e0" e0 w r1 e1 w1]
      by (auto simp add: write_element_def split: if_splits)
    show "r1 = None \<Longrightarrow> layer_meta e0 \<noteq> [] \<Longrightarrow> was_written e1"
      using first write_layers_props[of dir "layer_meta e0" e0 w r1 e1 w1]
      by (auto simp add: write_element_def split: if_splits)
    show "layer_meta e0 = [] \<Longrightarrow> w1 = w"
      using first write_layers_props[of dir "layer_meta e0" e0 w r1 e1 w1]
      by (auto simp add: write_element_def split: if_splits)
  qed
  have only_saves: "saves_then_removes (tile e) w w1"
    using a1 appends_refl by (rule saves_then_removesI)
  show ?thesis
  proof (cases r1)
    case (Some f)
    with assms False first have "w' = w1"
      by (simp add: process_element_def e0_def[symmetric])
    with only_saves show ?thesis by simp
  next
    case None
    note r1 = this
    show ?thesis
    proof (cases "isCached e1")
      case None
      with assms False first r1 have "w' = w1"
        by (simp add: process_element_def e0_def[symmetric])
      with only_saves show ?thesis by simp
    next
      case (Some cached)
      obtain r2 e2 w2 where second:
        "(if cached \<and> outside_roi roi (t_x (tile e1)) (t_y (tile e1))
          then flush dir e1 w1 else (None, e1, w1)) = (r2, e2, w2)"
        by (metis prod_cases3)
      from assms False first r1 Some second have w': "w' = w2"
        by (cases r2) (simp_all add: process_element_def e0_def[symmetric])
      show ?thesis
      proof (cases "cached \<and> outside_roi roi (t_x (tile e1)) (t_y (tile e1))")
        case False
        with second have "w2 = w1" by auto
        with w' only_saves show ?thesis by simp
      next
        case True
        with second have fl: "flush dir e1 w1 = (r2, e2, w2)" by simp
        show ?thesis
        proof (cases "layer_meta e0 = []")
          case True
          with m1 flush_props(3)[OF fl] nil1 w' have "w' = w" by simp
          then show ?thesis by (simp add: saves_then_removes_refl)
        next
          case False
          with wr1 r1 have "was_written e1" by simp
          from flush_props(2)[OF fl this] t1 t0
          have "appends (removed_written (tile e)) w1 w2" by simp
          with a1 w' show ?thesis by (auto intro: saves_then_removesI)
        qed
      qed
    qed
  qed
qed

lemma is_saved_written: "is_saved ev \<Longrightarrow> written_when_removed ev"
  by (cases ev) (simp_all add: is_saved_def written_when_removed_def)

lemma removed_written_written: "removed_written t ev \<Longrightarrow> written_when_removed ev"
  by (cases ev) (simp_all add: removed_written_def written_when_removed_def)

lemma saves_then_removes_written:
  assumes "saves_then_removes t w w'"
  shows "appends written_when_removed w w'"
proof -
  from assms obtain saves removes where h: "history w' = history w @ saves @ removes"
    and s: "\<forall>ev\<in>set saves. is_saved ev" and r: "\<forall>ev\<in>set removes. removed_written t ev"
    unfolding saves_then_removes_def by blast
  from s r have "\<forall>ev\<in>set (saves @ removes). written_when_removed ev"
    by (auto dest: is_saved_written removed_written_written)
  with h show ?thesis unfolding appends_def by blast
qed

lemma for_each_appends:
  assumes body: "\<And>k v w r v' w'. body k v w = (r, v', w') \<Longrightarrow> appends P w w'"
  shows "for_each body kvs w = (r, kvs', w') \<Longrightarrow> appends P w w'"
proof (induction kvs arbitrary: w r kvs' w')
  case Nil
  then show ?case by (auto simp add: appends_refl)
next
  case (Cons kv kvs)
  obtain k v where kv: "kv = (k, v)" by (cases kv)
  obtain r1 v1 w1 where b: "body k v w = (r1, v1, w1)" by (metis prod_cases3)
  note a1 = body[OF b]
  show ?case
  proof (cases r1)
    case (Some f)
    with Cons.prems kv b have "w' = w1" by simp
    with a1 show ?thesis by simp
  next
    case None
    obtain r2 kvs2 w2 where rest: "for_each body kvs w1 = (r2, kvs2, w2)" by (metis prod_cases3)
    with Cons.prems kv b None have "w' = w2" by simp
    with Cons.IH[OF rest] a1 show ?thesis by (auto intro: appends_trans)
  qed
qed

lemma process_cache_history:
  assumes "process_cache rp dir c w = (r, c', w')"
  shows "appends written_when_removed w w'"
  using assms unfolding process_cache_def
proof (rule for_each_appends[rotated])
  fix zoom g w1 r1 g1 w2
  assume a: "process_zoom rp dir zoom g w1 = (r1, g1, w2)"
  show "appends written_when_removed w1 w2"
  proof (cases "rp zoom")
    case None
    with a show ?thesis by (auto simp add: process_zoom_def appends_refl)
  next
    case (Some roi)
    with a have "for_each (\<lambda>x. process_column roi dir) g w1 = (r1, g1, w2)"
      by (simp add: process_zoom_def process_grid_def)
    then show ?thesis
    proof (rule for_each_appends[rotated])
      fix x col w3 r3 col3 w4
      assume "process_column roi dir col w3 = (r3, col3, w4)"
      then have "for_each (\<lambda>y. process_element roi dir) col w3 = (r3, col3, w4)"
        by (simp add: process_column_def)
      then show "appends written_when_removed w3 w4"
        by (rule for_each_appends[rotated])
           (auto dest!: process_element_history saves_then_removes_written)
    qed
  qed
qed

text \<open>
  In a cycle of the worker, every removal of a layer from memory finds \<^verbatim>\<open>was_written\<close>
  set: the events that \<open>process\<close> appends to the history are safe. For one element, the
  events are the calls of \<^verbatim>\<open>saveImage\<close> first and the removals after them, never the
  reverse, and every removal is one of the element's tile with the flag set. What the
  flag says about the disk is another matter, see the end of the theory.
\<close>

lemma removals_find_flag_set:
  "(process s = (r, s') \<longrightarrow>
      (\<exists>evs. history (env s') = history (env s) @ evs
          \<and> (\<forall>ev\<in>set evs. written_when_removed ev)))
   \<and> (process_element roi dir element w = (r1, element', w') \<longrightarrow>
      (\<exists>saves removes. history w' = history w @ saves @ removes
          \<and> (\<forall>ev\<in>set saves. is_saved ev)
          \<and> (\<forall>ev\<in>set removes. removed_written (tile element) ev)))"
proof (intro conjI impI)
  assume p: "process s = (r, s')"
  show "\<exists>evs. history (env s') = history (env s) @ evs
          \<and> (\<forall>ev\<in>set evs. written_when_removed ev)"
  proof (cases "do_update s")
    case False
    with p show ?thesis by (auto simp add: process_def)
  next
    case True
    obtain r2 c2 w2 where
      pc: "process_cache (roi_prediction s) (dir_toplevel s) (cache s) (env s) = (r2, c2, w2)"
      by (metis prod_cases3)
    with p True have "env s' = w2" by (cases r2) (auto simp add: process_def)
    with process_cache_history[OF pc] show ?thesis by (simp add: appends_def)
  qed
next
  assume "process_element roi dir element w = (r1, element', w')"
  from process_element_history[OF this]
  show "\<exists>saves removes. history w' = history w @ saves @ removes
          \<and> (\<forall>ev\<in>set saves. is_saved ev)
          \<and> (\<forall>ev\<in>set removes. removed_written (tile element) ev)"
    by (simp add: saves_then_removes_def)
qed

section \<open>Lookups after an update\<close>

lemma map_of_map_put: "map_of (map_put k v kvs) = (map_of kvs)(k \<mapsto> v)"
  by (induction kvs) (auto simp add: fun_eq_iff)

lemma lookup2_put:
  "lookup2 (map_put x (map_put y e (case map_of g x of None \<Rightarrow> [] | Some col \<Rightarrow> col)) g) x' y'
     = (if x' = x \<and> y' = y then Some e else lookup2 g x' y')"
  by (auto simp add: lookup2_def map_of_map_put split: option.splits)

lemma lookup3_put_element:
  assumes "lookup3 c zoom x y = Some e0"
  shows "lookup3 (put_element zoom x y e c) zoom' x' y'
     = (if zoom' = zoom \<and> x' = x \<and> y' = y then Some e else lookup3 c zoom' x' y')"
  using assms
  by (auto simp add: lookup3_def lookup2_def put_element_def map_of_map_put split: option.splits)

lemma lookup3_map_put:
  "lookup3 (map_put zoom g c) z x y = (if z = zoom then lookup2 g x y else lookup3 c z x y)"
  by (simp add: lookup3_def map_of_map_put)

section \<open>What add leaves unchanged\<close>

lemma add_tiles_existing_frame:
  "add_tiles_existing dir names z ts lm tiles g w = (r, g', w')
     \<Longrightarrow> \<forall>t\<in>set tiles. \<not> (t_x t = x \<and> t_y t = y)
     \<Longrightarrow> lookup2 g' x y = lookup2 g x y"
proof (induction tiles arbitrary: g w)
  case Nil
  then show ?case by simp
next
  case (Cons t tiles)
  show ?case
  proof (cases "t_locked t")
    case True
    with Cons.prems show ?thesis by simp
  next
    case False
    let ?g1 = "map_put (t_x t) (map_put (t_y t) (new_element ts lm t)
                 (case map_of g (t_x t) of None \<Rightarrow> [] | Some col \<Rightarrow> col)) g"
    from Cons.prems(2) have here: "lookup2 ?g1 x y = lookup2 g x y"
      by (auto simp add: lookup2_put)
    from Cons.prems(1) False obtain w1 where
      "add_tiles_existing dir names z ts lm tiles ?g1 w1 = (r, g', w')"
      by (cases "map_of g (t_x t)") auto
    from Cons.IH[OF this] Cons.prems(2) here show ?thesis by simp
  qed
qed

lemma add_tiles_new_frame:
  "add_tiles_new column_absent dir names z ts lm tiles tile_grid w = (r, tile_grid', w')
     \<Longrightarrow> \<forall>t\<in>set tiles. \<not> (t_x t = x \<and> t_y t = y)
     \<Longrightarrow> lookup2 tile_grid' x y = lookup2 tile_grid x y"
proof (induction tiles arbitrary: tile_grid w)
  case Nil
  then show ?case by simp
next
  case (Cons t tiles)
  show ?case
  proof (cases "t_locked t")
    case True
    with Cons.prems show ?thesis by simp
  next
    case False
    let ?g1 = "map_put (t_x t) (map_put (t_y t) (new_element ts lm t)
                 (case map_of tile_grid (t_x t) of None \<Rightarrow> [] | Some col \<Rightarrow> col)) tile_grid"
    from Cons.prems(2) have here: "lookup2 ?g1 x y = lookup2 tile_grid x y"
      by (auto simp add: lookup2_put)
    from Cons.prems(1) False obtain w1 where
      "add_tiles_new column_absent dir names z ts lm tiles ?g1 w1 = (r, tile_grid', w')"
      by auto
    from Cons.IH[OF this] Cons.prems(2) here show ?thesis by simp
  qed
qed

lemma add_store_frame:
  assumes "add_store zoom_level tiles names lm ts column_absent s = (r, s')"
  shows "roi_prediction s' = roi_prediction s" and "roi_prev_request s' = roi_prev_request s"
    and "\<not> (z = zoom_level \<and> (\<exists>t\<in>set tiles. t_x t = x \<and> t_y t = y))
           \<Longrightarrow> lookup3 (cache s') z x y = lookup3 (cache s) z x y"
proof -
  show "roi_prediction s' = roi_prediction s" and "roi_prev_request s' = roi_prev_request s"
    using assms by (auto simp add: add_store_def split: option.splits prod.splits)
next
  assume other: "\<not> (z = zoom_level \<and> (\<exists>t\<in>set tiles. t_x t = x \<and> t_y t = y))"
  show "lookup3 (cache s') z x y = lookup3 (cache s) z x y"
  proof (cases "map_of (cache s) zoom_level")
    case None
    obtain r1 tg w1 where
      n: "add_tiles_new column_absent (dir_toplevel s) names zoom_level ts lm tiles []
            (createDirectories (dir_toplevel s @ ''/'') names
               (''/'' @ to_string zoom_level) (env s)) = (r1, tg, w1)"
      by (metis prod_cases3)
    from assms None n have c: "cache s' = cache s \<or> cache s' = map_put zoom_level tg (cache s)"
      by (cases r1) (auto simp add: add_store_def)
    have old: "lookup3 (cache s) zoom_level x y = None"
      using None by (simp add: lookup3_def)
    show ?thesis
    proof (cases "z = zoom_level")
      case False
      with c show ?thesis by (auto simp add: lookup3_map_put)
    next
      case True
      with other have "\<forall>t\<in>set tiles. \<not> (t_x t = x \<and> t_y t = y)" by blast
      from add_tiles_new_frame[OF n this] have "lookup2 tg x y = None"
        by (simp add: lookup2_def)
      with c True old show ?thesis by (auto simp add: lookup3_map_put)
    qed
  next
    case (Some g)
    obtain r1 g1 w1 where e: "add_tiles_existing (dir_toplevel s) names zoom_level ts lm tiles g (env s)
        = (r1, g1, w1)"
      by (metis prod_cases3)
    with assms Some have c: "cache s' = map_put zoom_level g1 (cache s)"
      by (auto simp add: add_store_def)
    show ?thesis
    proof (cases "z = zoom_level")
      case False
      with c show ?thesis by (simp add: lookup3_map_put)
    next
      case True
      with other have "\<forall>t\<in>set tiles. \<not> (t_x t = x \<and> t_y t = y)" by blast
      from add_tiles_existing_frame[OF e this] c True Some show ?thesis
        by (simp add: lookup3_map_put) (simp add: lookup3_def)
    qed
  qed
qed

lemma updatePrediction_frame:
  assumes "updatePrediction zoom_level roi_current s = (r, s')"
  shows "cache s' = cache s"
    and "z \<noteq> zoom_level \<Longrightarrow> roi_prediction s' z = roi_prediction s z"
    and "z \<noteq> zoom_level \<Longrightarrow> roi_prev_request s' z = roi_prev_request s z"
  using assms
  by (auto simp add: updatePrediction_def Let_def split: option.splits prod.splits)

lemma updatePrediction_with_previous:
  "roi_prev_request s zoom_level = Some prev \<Longrightarrow> roi_prediction s zoom_level = Some pred \<Longrightarrow>
     updatePrediction zoom_level roi_current s =
       (None, s\<lparr>roi_prediction := (roi_prediction s)(zoom_level \<mapsto>
                    pred\<lparr>r_x := r_x roi_current + (r_x roi_current - r_x prev),
                         r_y := r_y roi_current + (r_y roi_current - r_y prev),
                         r_width := r_width roi_current + (r_width roi_current - r_width prev),
                         r_height := r_height roi_current
                                       + (r_height roi_current - r_height prev)\<rparr>),
                roi_prev_request := (roi_prev_request s)(zoom_level \<mapsto> roi_current)\<rparr>)"
  by (simp add: updatePrediction_def)

text \<open>
  Claim C9. Whatever the outcome of \<open>add\<close> at zoom level \<open>Z\<close> with the given tiles, and
  whatever the test of line 185 finds, the element found at a key other than \<open>(Z, x, y)\<close>
  for the coordinates \<open>(x, y)\<close> of a given tile is the element that was there before (the
  same record: flag, raster, meta data, timestamp), and the predicted ROI and the previous
  request of every other zoom level are unchanged. This covers a zoom level that \<open>add\<close>
  introduces: line 191 assigns a grid to a key that held none.
\<close>

theorem add_frame:
  assumes "add zoom_level tiles roi_idx ts column_absent s = (r, s')"
  shows "(\<forall>z x y. \<not> (z = zoom_level \<and> (\<exists>t\<in>set tiles. t_x t = x \<and> t_y t = y))
            \<longrightarrow> lookup3 (cache s') z x y = lookup3 (cache s) z x y)
    \<and> (\<forall>z. z \<noteq> zoom_level
            \<longrightarrow> roi_prediction s' z = roi_prediction s z
              \<and> roi_prev_request s' z = roi_prev_request s z)"
proof (cases tiles)
  case Nil
  with assms show ?thesis by (simp add: add_def)
next
  case (Cons t0 rest)
  show ?thesis
  proof (cases "t_data t0")
    case None
    with assms Cons show ?thesis by (simp add: add_def)
  next
    case (Some g0)
    define s1 where "s1 = (if \<not> has_init_directories s
                          then s\<lparr>has_init_directories := True,
                                 env := createDirectories (dir_toplevel s @ ''/'')
                                          (getAllLayerNames g0) [] (env s)\<rparr>
                          else s)"
    have s1: "cache s1 = cache s" "roi_prediction s1 = roi_prediction s"
      "roi_prev_request s1 = roi_prev_request s"
      by (simp_all add: s1_def)
    obtain r2 s2 where
      st: "add_store zoom_level tiles (getAllLayerNames g0) (layer_meta_of g0) ts column_absent s1
             = (r2, s2)"
      by force
    note f2 = add_store_frame[OF st]
    obtain r3 s3 where up: "updatePrediction zoom_level roi_idx s2 = (r3, s3)" by force
    note f3 = updatePrediction_frame[OF up]
    from assms Cons Some st up
    have "s' = s2 \<or> s' = s3\<lparr>do_update := True\<rparr>"
      by (cases r2) (simp_all add: add_def Let_def s1_def[symmetric])
    then have c: "cache s' = cache s2"
      and p: "\<And>z. z \<noteq> zoom_level \<Longrightarrow> roi_prediction s' z = roi_prediction s2 z"
      and q: "\<And>z. z \<noteq> zoom_level \<Longrightarrow> roi_prev_request s' z = roi_prev_request s2 z"
      using f3 by auto
    from c f2(3) s1(1) p q f2(1,2) s1(2,3) show ?thesis by simp
  qed
qed

theorem add_frame_witness:
  "fst (add 6 [(ex_tile 0 0 [ex_color])\<lparr>t_zoom_level := 6\<rparr>]
          \<lparr>r_x = 0, r_y = 0, r_width = 3, r_height = 3\<rparr> 1 ex_absent
          (ex_added_state 2 0 [ex_color])) = None
   \<and> lookup3 (cache (ex_added_state 2 0 [ex_color])) 5 2 0
       = Some (new_element 0 (layer_meta_of [ex_color]) (ex_tile 2 0 [ex_color]))
   \<and> lookup3 (cache (snd (add 6 [(ex_tile 0 0 [ex_color])\<lparr>t_zoom_level := 6\<rparr>]
                              \<lparr>r_x = 0, r_y = 0, r_width = 3, r_height = 3\<rparr> 1 ex_absent
                              (ex_added_state 2 0 [ex_color])))) 5 2 0
       = lookup3 (cache (ex_added_state 2 0 [ex_color])) 5 2 0
   \<and> roi_prediction (ex_added_state 2 0 [ex_color]) 5 = Some ex_roi
   \<and> roi_prediction (snd (add 6 [(ex_tile 0 0 [ex_color])\<lparr>t_zoom_level := 6\<rparr>]
                              \<lparr>r_x = 0, r_y = 0, r_width = 3, r_height = 3\<rparr> 1 ex_absent
                              (ex_added_state 2 0 [ex_color]))) 5
       = roi_prediction (ex_added_state 2 0 [ex_color]) 5
   \<and> roi_prev_request (snd (add 6 [(ex_tile 0 0 [ex_color])\<lparr>t_zoom_level := 6\<rparr>]
                                \<lparr>r_x = 0, r_y = 0, r_width = 3, r_height = 3\<rparr> 1 ex_absent
                                (ex_added_state 2 0 [ex_color]))) 5
       = roi_prev_request (ex_added_state 2 0 [ex_color]) 5
   \<and> lookup3 (cache (snd (add 6 [(ex_tile 0 0 [ex_color])\<lparr>t_zoom_level := 6\<rparr>]
                              \<lparr>r_x = 0, r_y = 0, r_width = 3, r_height = 3\<rparr> 1 ex_absent
                              (ex_added_state 2 0 [ex_color])))) 6 0 0
       = Some (new_element 1 (layer_meta_of [ex_color])
                 ((ex_tile 0 0 [ex_color])\<lparr>t_zoom_level := 6\<rparr>))"
proof -
  let ?roi = "\<lparr>r_x = 0, r_y = 0, r_width = 3, r_height = 3\<rparr>"
  let ?s = "ex_added_state 2 0 [ex_color]"
  let ?run = "add 6 [(ex_tile 0 0 [ex_color])\<lparr>t_zoom_level := 6\<rparr>] ?roi 1 ex_absent ?s"
  have run: "?run = (fst ?run, snd ?run)" by simp
  have ok: "fst ?run = None" by code_simp
  have before: "lookup3 (cache ?s) 5 2 0
      = Some (new_element 0 (layer_meta_of [ex_color]) (ex_tile 2 0 [ex_color]))"
    by code_simp
  have roi: "roi_prediction ?s 5 = Some ex_roi" by code_simp
  have stored: "lookup3 (cache (snd ?run)) 6 0 0
      = Some (new_element 1 (layer_meta_of [ex_color])
                ((ex_tile 0 0 [ex_color])\<lparr>t_zoom_level := 6\<rparr>))"
    by code_simp
  have other: "\<not> ((5::int) = 6 \<and> (\<exists>t\<in>set [(ex_tile 0 0 [ex_color])\<lparr>t_zoom_level := 6\<rparr>].
                                      t_x t = 2 \<and> t_y t = 0))"
    by simp
  have z: "(5::int) \<noteq> 6" by simp
  from add_frame[OF run] other z ok before roi stored show ?thesis by simp
qed

section \<open>add followed by get\<close>

lemma add_tiles_existing_stores:
  "add_tiles_existing dir names z ts lm tiles g w = (None, g', w')
     \<Longrightarrow> distinct (map (\<lambda>t. (t_x t, t_y t)) tiles) \<Longrightarrow> t \<in> set tiles
     \<Longrightarrow> \<not> t_locked t \<and> lookup2 g' (t_x t) (t_y t) = Some (new_element ts lm t)"
proof (induction tiles arbitrary: g w)
  case Nil
  then show ?case by simp
next
  case (Cons t1 tiles)
  from Cons.prems(1) have unlocked: "\<not> t_locked t1" by (auto split: if_splits)
  let ?g1 = "map_put (t_x t1) (map_put (t_y t1) (new_element ts lm t1)
               (case map_of g (t_x t1) of None \<Rightarrow> [] | Some col \<Rightarrow> col)) g"
  from Cons.prems(1) unlocked obtain w1 where
    rec: "add_tiles_existing dir names z ts lm tiles ?g1 w1 = (None, g', w')"
    by (cases "map_of g (t_x t1)") auto
  show ?case
  proof (cases "t \<in> set tiles")
    case True
    with Cons.IH[OF rec] Cons.prems(2) show ?thesis by simp
  next
    case False
    with Cons.prems(3) have t: "t = t1" by simp
    from Cons.prems(2) have "\<forall>t'\<in>set tiles. \<not> (t_x t' = t_x t1 \<and> t_y t' = t_y t1)"
      by (auto simp add: image_iff)
    from add_tiles_existing_frame[OF rec this]
    have "lookup2 g' (t_x t1) (t_y t1) = lookup2 ?g1 (t_x t1) (t_y t1)" .
    with t unlocked show ?thesis by (simp add: lookup2_put)
  qed
qed

lemma add_tiles_new_stores:
  "add_tiles_new column_absent dir names z ts lm tiles tile_grid w = (None, tile_grid', w')
     \<Longrightarrow> distinct (map (\<lambda>t. (t_x t, t_y t)) tiles) \<Longrightarrow> t \<in> set tiles
     \<Longrightarrow> \<not> t_locked t \<and> lookup2 tile_grid' (t_x t) (t_y t) = Some (new_element ts lm t)"
proof (induction tiles arbitrary: tile_grid w)
  case Nil
  then show ?case by simp
next
  case (Cons t1 tiles)
  from Cons.prems(1) have unlocked: "\<not> t_locked t1" by (auto split: if_splits)
  let ?g1 = "map_put (t_x t1) (map_put (t_y t1) (new_element ts lm t1)
               (case map_of tile_grid (t_x t1) of None \<Rightarrow> [] | Some col \<Rightarrow> col)) tile_grid"
  from Cons.prems(1) unlocked obtain w1 where
    rec: "add_tiles_new column_absent dir names z ts lm tiles ?g1 w1 = (None, tile_grid', w')"
    by auto
  show ?case
  proof (cases "t \<in> set tiles")
    case True
    with Cons.IH[OF rec] Cons.prems(2) show ?thesis by simp
  next
    case False
    with Cons.prems(3) have t: "t = t1" by simp
    from Cons.prems(2) have "\<forall>t'\<in>set tiles. \<not> (t_x t' = t_x t1 \<and> t_y t' = t_y t1)"
      by (auto simp add: image_iff)
    from add_tiles_new_frame[OF rec this]
    have "lookup2 tile_grid' (t_x t1) (t_y t1) = lookup2 ?g1 (t_x t1) (t_y t1)" .
    with t unlocked show ?thesis by (simp add: lookup2_put)
  qed
qed

lemma add_tiles_existing_returns:
  "fst (add_tiles_existing dir names z ts lm tiles g w) = None \<longleftrightarrow> (\<forall>t\<in>set tiles. \<not> t_locked t)"
  by (induction tiles arbitrary: g w) (auto split: option.splits)

lemma add_tiles_new_returns:
  "fst (add_tiles_new column_absent dir names z ts lm tiles tile_grid w) = None
     \<longleftrightarrow> (\<forall>t\<in>set tiles. \<not> t_locked t)"
  by (induction tiles arbitrary: tile_grid w) auto

text \<open>
  \<open>add\<close> returns exactly when it is given a tile, the first tile holds a container, and
  no tile is locked.
\<close>

lemma add_returns_iff:
  "fst (add zoom_level tiles roi_idx ts column_absent s) = None \<longleftrightarrow>
     tiles \<noteq> [] \<and> t_data (hd tiles) \<noteq> None \<and> (\<forall>t\<in>set tiles. \<not> t_locked t)"
proof (cases tiles)
  case Nil
  then show ?thesis by (simp add: add_def)
next
  case (Cons t0 rest)
  show ?thesis
  proof (cases "t_data t0")
    case None
    with Cons show ?thesis by (simp add: add_def)
  next
    case (Some g0)
    define s1 where "s1 = (if \<not> has_init_directories s
                          then s\<lparr>has_init_directories := True,
                                 env := createDirectories (dir_toplevel s @ ''/'')
                                          (getAllLayerNames g0) [] (env s)\<rparr>
                          else s)"
    have store: "fst (add_store zoom_level tiles (getAllLayerNames g0) (layer_meta_of g0) ts
                        column_absent s1) = None \<longleftrightarrow> (\<forall>t\<in>set tiles. \<not> t_locked t)"
    proof (cases "map_of (cache s1) zoom_level")
      case None
      obtain r1 tg w1 where
        n: "add_tiles_new column_absent (dir_toplevel s1) (getAllLayerNames g0) zoom_level ts
              (layer_meta_of g0) tiles []
              (createDirectories (dir_toplevel s1 @ ''/'') (getAllLayerNames g0)
                 (''/'' @ to_string zoom_level) (env s1)) = (r1, tg, w1)"
        by (metis prod_cases3)
      from n add_tiles_new_returns[of column_absent "dir_toplevel s1" "getAllLayerNames g0"
          zoom_level ts "layer_meta_of g0" tiles "[]"
          "createDirectories (dir_toplevel s1 @ ''/'') (getAllLayerNames g0)
             (''/'' @ to_string zoom_level) (env s1)"]
      have "r1 = None \<longleftrightarrow> (\<forall>t\<in>set tiles. \<not> t_locked t)" by simp
      moreover from None n
      have "fst (add_store zoom_level tiles (getAllLayerNames g0) (layer_meta_of g0) ts
                   column_absent s1) = None \<longleftrightarrow> r1 = None"
        by (cases r1) (simp_all add: add_store_def)
      ultimately show ?thesis by simp
    next
      case (Some g)
      obtain r1 g1 w1 where
        e: "add_tiles_existing (dir_toplevel s1) (getAllLayerNames g0) zoom_level ts
              (layer_meta_of g0) tiles g (env s1) = (r1, g1, w1)"
        by (metis prod_cases3)
      from e add_tiles_existing_returns[of "dir_toplevel s1" "getAllLayerNames g0" zoom_level
          ts "layer_meta_of g0" tiles g "env s1"]
      have "r1 = None \<longleftrightarrow> (\<forall>t\<in>set tiles. \<not> t_locked t)" by simp
      moreover from Some e
      have "fst (add_store zoom_level tiles (getAllLayerNames g0) (layer_meta_of g0) ts
                   column_absent s1) = None \<longleftrightarrow> r1 = None"
        by (simp add: add_store_def)
      ultimately show ?thesis by simp
    qed
    have "fst (add zoom_level tiles roi_idx ts column_absent s) = None \<longleftrightarrow>
        fst (add_store zoom_level tiles (getAllLayerNames g0) (layer_meta_of g0) ts
               column_absent s1) = None"
      using Cons Some
      by (auto simp add: add_def Let_def s1_def[symmetric] split: prod.splits option.splits)
    with store Cons Some show ?thesis by simp
  qed
qed

lemma add_then_lookup:
  assumes run: "add zoom_level tiles roi_idx ts column_absent s = (None, s')"
    and keys: "distinct (map (\<lambda>t. (t_x t, t_y t)) tiles)"
    and t: "t \<in> set tiles"
  shows "\<not> t_locked t"
    and "\<exists>g0. t_data (hd tiles) = Some g0
           \<and> lookup3 (cache s') zoom_level (t_x t) (t_y t)
               = Some (new_element ts (layer_meta_of g0) t)"
proof -
  from run add_returns_iff[of zoom_level tiles roi_idx ts column_absent s]
  obtain t0 rest g0 where first: "tiles = t0 # rest" "t_data t0 = Some g0"
    by (cases tiles) auto
  define s1 where "s1 = (if \<not> has_init_directories s
                          then s\<lparr>has_init_directories := True,
                                 env := createDirectories (dir_toplevel s @ ''/'')
                                          (getAllLayerNames g0) [] (env s)\<rparr>
                          else s)"
  obtain r2 s2 where
    st: "add_store zoom_level tiles (getAllLayerNames g0) (layer_meta_of g0) ts column_absent s1
           = (r2, s2)"
    by force
  obtain r3 s3 where up: "updatePrediction zoom_level roi_idx s2 = (r3, s3)" by force
  from run first st up have r2: "r2 = None" and s': "s' = s3\<lparr>do_update := True\<rparr>"
    by (cases r2; simp add: add_def Let_def s1_def[symmetric])+
  from updatePrediction_frame(1)[OF up] s' have c: "cache s' = cache s2" by simp
  have "\<not> t_locked t \<and> lookup3 (cache s2) zoom_level (t_x t) (t_y t)
      = Some (new_element ts (layer_meta_of g0) t)"
  proof (cases "map_of (cache s1) zoom_level")
    case None
    obtain r1 tg w1 where
      n: "add_tiles_new column_absent (dir_toplevel s1) (getAllLayerNames g0) zoom_level ts
            (layer_meta_of g0) tiles []
            (createDirectories (dir_toplevel s1 @ ''/'') (getAllLayerNames g0)
               (''/'' @ to_string zoom_level) (env s1)) = (r1, tg, w1)"
      by (metis prod_cases3)
    with st None r2 have "r1 = None" and "cache s2 = map_put zoom_level tg (cache s1)"
      by (cases r1; auto simp add: add_store_def)+
    with add_tiles_new_stores[OF _ keys t, of column_absent "dir_toplevel s1" "getAllLayerNames g0"
        zoom_level ts "layer_meta_of g0" "[]" _ tg w1] n
    show ?thesis by (simp add: lookup3_map_put)
  next
    case (Some g)
    obtain r1 g1 w1 where
      e: "add_tiles_existing (dir_toplevel s1) (getAllLayerNames g0) zoom_level ts
            (layer_meta_of g0) tiles g (env s1) = (r1, g1, w1)"
      by (metis prod_cases3)
    with st Some r2 have "r1 = None" and "cache s2 = map_put zoom_level g1 (cache s1)"
      by (auto simp add: add_store_def)
    with add_tiles_existing_stores[OF _ keys t, of "dir_toplevel s1" "getAllLayerNames g0" zoom_level
        ts "layer_meta_of g0" g "env s1" g1 w1] e
    show ?thesis by (simp add: lookup3_map_put)
  qed
  with c first show "\<not> t_locked t"
    and "\<exists>g0. t_data (hd tiles) = Some g0
           \<and> lookup3 (cache s') zoom_level (t_x t) (t_y t)
               = Some (new_element ts (layer_meta_of g0) t)"
    by simp_all
qed

lemma get_cached_element:
  assumes "lookup3 (cache s) zoom_level tx ty = Some e" and "\<not> t_locked (tile e)"
    and "isCached e = Some True"
  shows "fst (get tx ty zoom_level s) = Inr (Some ((tile e)\<lparr>t_locked := True\<rparr>))"
  using assms
  by (auto simp add: get_def lookup3_def lookup2_def isCached_def split: option.splits)

text \<open>
  Claim C2 says that every added tile is retrievable with \<open>get\<close> right after \<open>add\<close>
  returns, locked and non-empty. \<open>add\<close> stores a tile whatever its container holds: for a
  tile without layers on a fresh cache \<open>add\<close> returns, and \<open>get\<close> yields the tile locked
  and empty.
\<close>

theorem add_then_get_empty_tile:
  "fst (add 5 [ex_tile 0 0 []] ex_roi 0 ex_absent (init_state ''out'')) = None
   \<and> fst (get 0 0 5 (snd (add 5 [ex_tile 0 0 []] ex_roi 0 ex_absent (init_state ''out''))))
       = Inr (Some ((ex_tile 0 0 [])\<lparr>t_locked := True\<rparr>))
   \<and> t_data ((ex_tile 0 0 [])\<lparr>t_locked := True\<rparr>) = Some []
   \<and> grid_empty []"
  by code_simp

text \<open>
  Claim C2, amended. For every call of \<open>add\<close> whose keys are pairwise distinct and that
  returns, each added tile that holds at least one raster layer is retrievable right
  after the call: \<open>get\<close> at the key of the tile yields that tile, locked and non-empty.
  No cycle of the worker is needed, the state before \<open>add\<close> is any state (also one without
  the zoom level), and the test of line 185 may find what it will. When \<open>add\<close> returns is
  said by \<open>add_returns_iff\<close>.
\<close>

theorem add_then_get:
  assumes "fst (add zoom_level tiles roi_idx ts column_absent s) = None"
    and "distinct (map (\<lambda>t. (t_x t, t_y t)) tiles)"
    and "t \<in> set tiles" and "t_data t = Some g" and "g \<noteq> []"
  shows "fst (get (t_x t) (t_y t) zoom_level (snd (add zoom_level tiles roi_idx ts column_absent s)))
           = Inr (Some (t\<lparr>t_locked := True\<rparr>))
    \<and> t_locked (t\<lparr>t_locked := True\<rparr>)
    \<and> t_data (t\<lparr>t_locked := True\<rparr>) = Some g \<and> \<not> grid_empty g"
proof -
  let ?run = "add zoom_level tiles roi_idx ts column_absent s"
  from assms(1) have run: "?run = (None, snd ?run)" by (metis prod.collapse)
  note l = add_then_lookup[OF run assms(2,3)]
  from l(2) obtain g0 where
    found: "lookup3 (cache (snd ?run)) zoom_level (t_x t) (t_y t)
              = Some (new_element ts (layer_meta_of g0) t)"
    by blast
  have cached: "isCached (new_element ts (layer_meta_of g0) t) = Some True"
    using assms(4,5) by (simp add: isCached_def new_element_def grid_empty_def)
  from get_cached_element[OF found _ cached] l(1)
  have "fst (get (t_x t) (t_y t) zoom_level (snd ?run)) = Inr (Some (t\<lparr>t_locked := True\<rparr>))"
    by (simp add: new_element_def)
  with assms(4,5) show ?thesis by (simp add: grid_empty_def)
qed

theorem add_then_get_witness:
  "fst (add 5 [ex_tile 0 0 [ex_color]] ex_roi 0 ex_absent (init_state ''out'')) = None
   \<and> map_of (cache (init_state ''out'')) 5 = None
   \<and> fst (get 0 0 5 (snd (add 5 [ex_tile 0 0 [ex_color]] ex_roi 0 ex_absent (init_state ''out''))))
       = Inr (Some ((ex_tile 0 0 [ex_color])\<lparr>t_locked := True\<rparr>))
   \<and> t_locked ((ex_tile 0 0 [ex_color])\<lparr>t_locked := True\<rparr>)
   \<and> t_data ((ex_tile 0 0 [ex_color])\<lparr>t_locked := True\<rparr>) = Some [ex_color]
   \<and> \<not> grid_empty [ex_color]"
proof -
  have ret: "fst (add 5 [ex_tile 0 0 [ex_color]] ex_roi 0 ex_absent (init_state ''out'')) = None"
    by code_simp
  have keys: "distinct (map (\<lambda>t. (t_x t, t_y t)) [ex_tile 0 0 [ex_color]])" by simp
  have mem: "ex_tile 0 0 [ex_color] \<in> set [ex_tile 0 0 [ex_color]]" by simp
  have data: "t_data (ex_tile 0 0 [ex_color]) = Some [ex_color]" by (simp add: ex_tile_def)
  have ne: "[ex_color] \<noteq> []" by simp
  have fresh: "map_of (cache (init_state ''out'')) 5 = None" by (simp add: init_state_def)
  from add_then_get[OF ret keys mem data ne] ret fresh show ?thesis
    by (simp add: ex_tile_def)
qed

section \<open>get at a key that is absent\<close>

lemma lookup3_None_iff:
  "lookup3 c zoom x y = None \<longleftrightarrow>
     (map_of c zoom = None
      \<or> (\<exists>g. map_of c zoom = Some g \<and> map_of g x = None)
      \<or> (\<exists>g col. map_of c zoom = Some g \<and> map_of g x = Some col \<and> map_of col y = None))"
  by (auto simp add: lookup3_def lookup2_def split: option.splits)

text \<open>
  Claim C8. When the zoom level, the column or the row is absent from the cache
  (\<open>lookup3\<close> finds nothing, see \<open>lookup3_None_iff\<close>), \<open>get\<close> returns the null pointer, with
  no failure and with the state as it was.
\<close>

theorem get_miss_returns_null:
  "lookup3 (cache s) zoom_level tx ty = None \<Longrightarrow> get tx ty zoom_level s = (Inr None, s)"
  by (auto simp add: get_def lookup3_def lookup2_def split: option.splits)

theorem get_miss_returns_null_witness:
  "lookup3 (cache (init_state ''out'')) 7 99 99 = None
   \<and> get 99 99 7 (init_state ''out'') = (Inr None, init_state ''out'')"
proof -
  have miss: "lookup3 (cache (init_state ''out'')) 7 99 99 = None"
    by (simp add: lookup3_def lookup2_def init_state_def)
  from miss get_miss_returns_null[OF miss] show ?thesis by simp
qed

section \<open>The written flag\<close>

text \<open>
  Claim C3 says that \<^verbatim>\<open>was_written\<close> implies that all layers of the element have been
  persisted, and that a \<^verbatim>\<open>write\<close> that fails on a later layer must not leave the flag
  set. Line 357 sets the flag inside the loop, after the first layer: for an element with
  the layers color (8-bit) and labels (\<^verbatim>\<open>CV_32S\<close>, a type without extension), \<^verbatim>\<open>write\<close>
  saves color, sets the flag and throws at labels, which is on no file.
\<close>

theorem write_sets_flag_before_failing:
  "(case write_element ''out'' (ex_element 0 0 [ex_color, ex_labels] False)
           \<lparr>disk = [], dirs = [], history = []\<rparr> of
      (r, e, w) \<Rightarrow>
        r = Some (InvalidArgument ''Error writing tile: data type unknown!'')
        \<and> was_written e
        \<and> map lm_name (layer_meta e) = [''color'', ''labels'']
        \<and> history w = [Saved ''out/color/5/0/0.png'']
        \<and> map fst (disk w) = [''out/color/5/0/0.png''])"
  by (simp add: write_element_def ex_defs path_defs io_defs)

section \<open>The ROI predictor\<close>

text \<open>
  Claim C4 says that the predictor records the current request as the previous one in
  both cases. At the first request for a zoom level, line 411 assigns through
  \<^verbatim>\<open>it_roi_prev_request\<close>, which is the end iterator: the assignment is undefined and
  inserts no key, so that no previous request is recorded for the zoom level; the
  prediction is the current request. Nothing else writes to the map of previous requests.
\<close>

theorem updatePrediction_first_request_undefined:
  "fst (updatePrediction 5 \<lparr>r_x = 0, r_y = 0, r_width = 10, r_height = 10\<rparr> (init_state ''out''))
     = Some EndIteratorDeref
   \<and> roi_prev_request
        (snd (updatePrediction 5 \<lparr>r_x = 0, r_y = 0, r_width = 10, r_height = 10\<rparr>
                (init_state ''out''))) 5 = None
   \<and> roi_prediction
        (snd (updatePrediction 5 \<lparr>r_x = 0, r_y = 0, r_width = 10, r_height = 10\<rparr>
                (init_state ''out''))) 5
       = Some \<lparr>r_x = 0, r_y = 0, r_width = 10, r_height = 10\<rparr>"
  by (simp add: updatePrediction_def init_state_def)

section \<open>What get leaves unchanged\<close>

lemma load_layers_frame:
  "load_layers dir ms e w = (r, e') \<Longrightarrow>
     without_raster e' = without_raster e \<and> (t_data (tile e) \<noteq> None \<longrightarrow> t_data (tile e') \<noteq> None)
     \<and> t_locked (tile e') = t_locked (tile e)"
proof (induction ms arbitrary: e)
  case Nil
  then show ?case by auto
next
  case (Cons m ms)
  show ?case
  proof (cases "file_extension (lm_type m AND CV_MAT_DEPTH_MASK)")
    case None
    with Cons.prems show ?thesis by auto
  next
    case (Some ext)
    note ext = this
    show ?thesis
    proof (cases "loadImage (tile_path dir (lm_name m) (tile e) @ ext) w")
      case None
      with ext Cons.prems show ?thesis by auto
    next
      case (Some d)
      note d = this
      show ?thesis
      proof (cases "t_data (tile e)")
        case None
        with ext d Cons.prems show ?thesis by auto
      next
        case (Some g)
        let ?e1 = "e\<lparr>tile := (tile e)\<lparr>t_data := Some (grid_add g (lm_name m) d
                                            (lm_interpolation_flag m))\<rparr>\<rparr>"
        from ext d Some Cons.prems have "load_layers dir ms ?e1 w = (r, e')" by simp
        from Cons.IH[OF this] show ?thesis by (simp add: without_raster_def)
      qed
    qed
  qed
qed

text \<open>
  Claim C10 says that the raster container of the addressed tile is the only state that
  \<open>get\<close> may modify. Line 226 locks the tile before it is returned: for a tile that was
  added and is in memory, \<open>get\<close> leaves the container as it is and sets the lock.
\<close>

theorem get_sets_the_lock:
  "lookup3 (cache (ex_added_state 0 0 [ex_color])) 5 0 0
     = Some (new_element 0 (layer_meta_of [ex_color]) (ex_tile 0 0 [ex_color]))
   \<and> t_locked (ex_tile 0 0 [ex_color]) = False
   \<and> lookup3 (cache (snd (get 0 0 5 (ex_added_state 0 0 [ex_color])))) 5 0 0
       = Some (new_element 0 (layer_meta_of [ex_color])
                 ((ex_tile 0 0 [ex_color])\<lparr>t_locked := True\<rparr>))
   \<and> t_locked ((ex_tile 0 0 [ex_color])\<lparr>t_locked := True\<rparr>) = True"
  by code_simp

text \<open>
  Claim C10, amended. Whatever the outcome of \<open>get\<close>, all members but the cache are
  unchanged, and so is the ROI state; the cache holds the same keys, and every element is
  the same but for the raster container and the lock of its tile (\<open>without_raster\<close>):
  flag, meta data, timestamp and tile coordinates stay. Elements at other keys are the
  same records. The only state that \<open>get\<close> may modify is the addressed tile: its lock,
  which is set after the call, and its raster container, which changes only if it was
  empty (\<open>isCached\<close> is \<open>Some False\<close>), which is when \<open>get\<close> calls \<open>load\<close>.
\<close>

theorem get_frame:
  assumes "get tx ty zoom_level s = (r, s')"
  shows "s'\<lparr>cache := cache s\<rparr> = s
    \<and> (\<forall>z x y. map_option without_raster (lookup3 (cache s') z x y)
                = map_option without_raster (lookup3 (cache s) z x y))
    \<and> (\<forall>z x y. (z, x, y) \<noteq> (zoom_level, tx, ty)
          \<longrightarrow> lookup3 (cache s') z x y = lookup3 (cache s) z x y)
    \<and> (\<forall>e e'. lookup3 (cache s) zoom_level tx ty = Some e
          \<and> lookup3 (cache s') zoom_level tx ty = Some e' \<and> isCached e \<noteq> Some False
          \<longrightarrow> t_data (tile e') = t_data (tile e))
    \<and> (\<forall>e'. lookup3 (cache s') zoom_level tx ty = Some e' \<longrightarrow> t_locked (tile e'))"
proof (cases "lookup3 (cache s) zoom_level tx ty")
  case None
  with assms have "s' = s"
    by (auto simp add: get_def lookup3_def lookup2_def split: option.splits)
  with None show ?thesis by auto
next
  case (Some e)
  then obtain g col where g: "map_of (cache s) zoom_level = Some g"
    and col: "map_of g tx = Some col" and el: "map_of col ty = Some e"
    by (auto simp add: lookup3_def lookup2_def split: option.splits)
  note put = lookup3_put_element[OF Some]
  show ?thesis
  proof (cases "t_locked (tile e)")
    case True
    with assms g col el have "s' = s" by (simp add: get_def)
    with Some True show ?thesis by auto
  next
    case False
    define e1 where "e1 = e\<lparr>tile := (tile e)\<lparr>t_locked := True\<rparr>\<rparr>"
    have w1: "without_raster e1 = without_raster e" by (simp add: e1_def without_raster_def)
    have d1: "t_data (tile e1) = t_data (tile e)" by (simp add: e1_def)
    have l1: "t_locked (tile e1)" by (simp add: e1_def)
    have c1: "isCached e1 = isCached e" by (simp add: isCached_def d1)
    obtain e2 where s': "s' = s\<lparr>cache := put_element zoom_level tx ty e2 (cache s)\<rparr>"
      and w2: "without_raster e2 = without_raster e"
      and d2: "isCached e \<noteq> Some False \<Longrightarrow> t_data (tile e2) = t_data (tile e)"
      and l2: "t_locked (tile e2)"
    proof (cases "isCached e1")
      case None
      with assms g col el False have "s' = s\<lparr>cache := put_element zoom_level tx ty e1 (cache s)\<rparr>"
        by (simp add: get_def e1_def[symmetric])
      with w1 d1 l1 that show ?thesis by blast
    next
      case (Some b)
      show ?thesis
      proof (cases b)
        case True
        with Some assms g col el False
        have "s' = s\<lparr>cache := put_element zoom_level tx ty e1 (cache s)\<rparr>"
          by (simp add: get_def e1_def[symmetric])
        with w1 d1 l1 that show ?thesis by blast
      next
        case False
        note b = this
        obtain r3 e3 where ld: "load (dir_toplevel s) e1 (env s) = (r3, e3)" by force
        with Some b assms g col el \<open>\<not> t_locked (tile e)\<close>
        have "s' = s\<lparr>cache := put_element zoom_level tx ty e3 (cache s)\<rparr>"
          by (cases r3) (simp_all add: get_def e1_def[symmetric])
        moreover from ld load_layers_frame[of "dir_toplevel s" "layer_meta e1" e1 "env s" r3 e3] w1
        have "without_raster e3 = without_raster e" by (simp add: load_def)
        moreover from Some b c1 have "isCached e = Some False" by simp
        moreover from ld load_layers_frame[of "dir_toplevel s" "layer_meta e1" e1 "env s" r3 e3] l1
        have "t_locked (tile e3)" by (simp add: load_def)
        ultimately show ?thesis using that by blast
      qed
    qed
    from s' have "s'\<lparr>cache := cache s\<rparr> = s" by simp
    moreover from s' put w2 Some
    have "\<forall>z x y. map_option without_raster (lookup3 (cache s') z x y)
                = map_option without_raster (lookup3 (cache s) z x y)" by auto
    moreover from s' put
    have "\<forall>z x y. (z, x, y) \<noteq> (zoom_level, tx, ty)
          \<longrightarrow> lookup3 (cache s') z x y = lookup3 (cache s) z x y" by auto
    moreover from s' put Some d2
    have "\<forall>e e'. lookup3 (cache s) zoom_level tx ty = Some e
          \<and> lookup3 (cache s') zoom_level tx ty = Some e' \<and> isCached e \<noteq> Some False
          \<longrightarrow> t_data (tile e') = t_data (tile e)" by auto
    moreover from s' put l2
    have "\<forall>e'. lookup3 (cache s') zoom_level tx ty = Some e' \<longrightarrow> t_locked (tile e')" by auto
    ultimately show ?thesis by blast
  qed
qed

theorem get_frame_witness:
  "fst (get 2 0 5 ex_cycled_state) = Inr (Some ((ex_tile 2 0 [ex_color])\<lparr>t_locked := True\<rparr>))
   \<and> map_option (t_data \<circ> tile) (lookup3 (cache ex_cycled_state) 5 2 0) = Some (Some [])
   \<and> (snd (get 2 0 5 ex_cycled_state))\<lparr>cache := cache ex_cycled_state\<rparr> = ex_cycled_state
   \<and> map_option without_raster (lookup3 (cache (snd (get 2 0 5 ex_cycled_state))) 5 2 0)
       = map_option without_raster (lookup3 (cache ex_cycled_state) 5 2 0)
   \<and> lookup3 (cache (snd (get 2 0 5 ex_cycled_state))) 5 2 1
       = lookup3 (cache ex_cycled_state) 5 2 1
   \<and> map_option (t_locked \<circ> tile) (lookup3 (cache (snd (get 2 0 5 ex_cycled_state))) 5 2 0)
       = Some True"
proof -
  let ?run = "get 2 0 5 ex_cycled_state"
  have run: "?run = (fst ?run, snd ?run)" by simp
  have res: "fst ?run = Inr (Some ((ex_tile 2 0 [ex_color])\<lparr>t_locked := True\<rparr>))"
    by code_simp
  have before: "map_option (t_data \<circ> tile) (lookup3 (cache ex_cycled_state) 5 2 0) = Some (Some [])"
    by code_simp
  have after: "map_option (t_locked \<circ> tile) (lookup3 (cache (snd ?run)) 5 2 0) = Some True"
    by code_simp
  have other: "((5::int), (2::int), (1::int)) \<noteq> (5, 2, 0)" by simp
  from get_frame[OF run] other res before after show ?thesis by blast
qed

section \<open>What get returns for a key that is present\<close>



lemma tile_path_coords:
  "t_zoom_level t' = t_zoom_level t \<Longrightarrow> t_x t' = t_x t \<Longrightarrow> t_y t' = t_y t
     \<Longrightarrow> tile_path dir n t' = tile_path dir n t"
  by (simp add: tile_path_def)






text \<open>
  After \<^verbatim>\<open>flushAll\<close> the container of a tile is the null pointer (line 255), where
  \<^verbatim>\<open>flush\<close> leaves an empty container. \<open>get\<close> asks \<open>isCached\<close> first (line 227), which reads
  through the pointer (line 376): the tile is on disk, and \<open>get\<close> does not reload it. The
  amended claim below is about tiles that hold a container and says nothing on this case.
\<close>

lemma get_after_flushAll:
  "fst (flushAll (ex_added_state 2 0 [ex_color])) = None
   \<and> map_option (t_data \<circ> tile) (lookup3 (cache ex_flushed_state) 5 2 0) = Some None
   \<and> map fst (disk (env ex_flushed_state)) = [''out/color/5/2/0.png'']
   \<and> fst (get 2 0 5 ex_flushed_state) = Inl NullPointerDeref"
  by code_simp



section \<open>The eviction test\<close>

lemma outside_roi_closed_box:
  "outside_roi roi tx ty \<longleftrightarrow>
     \<not> (r_x roi \<le> tx \<and> tx \<le> r_x roi + r_width roi \<and> r_y roi \<le> ty \<and> ty \<le> r_y roi + r_height roi)"
  by (auto simp add: outside_roi_def)

lemma outside_roi_not_contained: "outside_roi roi tx ty \<Longrightarrow> \<not> rect_contains roi tx ty"
  by (auto simp add: outside_roi_def rect_contains_def)

lemma process_element_keeps_inside:
  assumes "\<not> t_locked (tile e)" and "was_written e" and "t_data (tile e) \<noteq> None"
    and "\<not> outside_roi roi (t_x (tile e)) (t_y (tile e))"
  shows "process_element roi dir e w = (None, e, w)"
  using assms by (auto simp add: process_element_def isCached_def Let_def)

lemma process_element_flushes_outside:
  assumes "\<not> t_locked (tile e)" and "was_written e" and "isCached e = Some True"
    and "outside_roi roi (t_x (tile e)) (t_y (tile e))"
  shows "process_element roi dir e w =
     (case flush dir (e\<lparr>tile := (tile e)\<lparr>t_locked := True\<rparr>\<rparr>) w of
        (Some f, e2, w2) \<Rightarrow> (Some f, e2, w2)
      | (None, e2, w2) \<Rightarrow> (None, e2\<lparr>tile := (tile e2)\<lparr>t_locked := False\<rparr>\<rparr>, w2))"
  using assms by (auto simp add: process_element_def isCached_def Let_def)

text \<open>
  Claim C6 says that a cached element is evicted if and only if its coordinates lie
  outside the predicted rectangle, also on the far edges \<open>x = roi.x + roi.width\<close> and
  \<open>y = roi.y + roi.height\<close>. The test of lines 88-89 compares with \<^verbatim>\<open>>\<close>: for the
  rectangle (0, 0, 1, 1) the tiles (1, 0) and (0, 1) are outside the rectangle, and a
  cycle of the worker leaves both in memory (the cache is as it was, and nothing is
  removed).
\<close>

theorem far_edge_not_evicted:
  "\<not> rect_contains ex_roi 1 0 \<and> \<not> rect_contains ex_roi 0 1
   \<and> fst (process (ex_state ex_edge_cache)) = Inr True
   \<and> cache (snd (process (ex_state ex_edge_cache))) = ex_edge_cache
   \<and> history (env (snd (process (ex_state ex_edge_cache)))) = []
   \<and> map_option isCached (lookup3 ex_edge_cache 5 1 0) = Some (Some True)
   \<and> map_option isCached (lookup3 ex_edge_cache 5 0 1) = Some (Some True)"
  by (simp add: rect_contains_def process_def process_cache_def process_zoom_def process_grid_def
      process_column_def process_element_def isCached_def outside_roi_def lookup3_def lookup2_def
      ex_edge_cache_def ex_defs)

section \<open>Failures in the worker cycle\<close>

lemma for_each_stops:
  assumes "for_each body pre w = (None, pre', w1)" and "body k v w1 = (Some f, v', w2)"
  shows "for_each body (pre @ (k, v) # post) w = (Some f, pre' @ (k, v') # post, w2)"
  using assms
proof (induction pre arbitrary: w pre')
  case Nil
  then show ?case by simp
next
  case (Cons kv pre)
  obtain k0 v0 where kv: "kv = (k0, v0)" by (cases kv)
  obtain r0 v0' w0 where b: "body k0 v0 w = (r0, v0', w0)" by (metis prod_cases3)
  obtain r1 pre1 w1' where rest: "for_each body pre w0 = (r1, pre1, w1')" by (metis prod_cases3)
  from Cons.prems(1) kv b rest have r0: "r0 = None" and r1: "r1 = None"
    and p: "pre' = (k0, v0') # pre1" and w: "w1' = w1"
    by (cases r0; simp)+
  from Cons.IH[of w0 pre1] rest r1 w Cons.prems(2)
  have "for_each body (pre @ (k, v) # post) w0 = (Some f, pre1 @ (k, v') # post, w2)" by simp
  with kv b r0 p show ?case by simp
qed

text \<open>
  Claim C7 says that an error raised for one element is caught in the cycle, which goes
  on with the other elements. \<^verbatim>\<open>process\<close> has no handler: in a column of two unwritten
  elements of which the first cannot be written, the exception of \<^verbatim>\<open>write\<close> leaves
  \<^verbatim>\<open>process\<close>, and the second element is neither written nor marked.
\<close>

theorem process_fails_at_first_error:
  "fst (process ex_failing_state)
     = Inl (InvalidArgument ''Error writing tile: data type unknown!'')
   \<and> lookup3 (cache (snd (process ex_failing_state))) 5 0 1
       = Some (ex_element 0 1 [ex_color] False)
   \<and> disk (env (snd (process ex_failing_state))) = []
   \<and> history (env (snd (process ex_failing_state))) = []"
  by (simp add: process_def process_cache_def process_zoom_def process_grid_def
      process_column_def process_element_def write_element_def lookup3_def lookup2_def
      ex_defs path_defs io_defs)

text \<open>
  Claim C7, amended. A failure raised for an element in a cycle of the worker is not
  caught in the cycle: \<open>process\<close> ends with this failure. The zoom levels, columns and
  elements visited before are as the cycle left them, the element is as it was when the
  failure was raised, and the elements, columns and zoom levels after it are untouched.
\<close>

theorem process_stops_at_failure:
  assumes "do_update s"
    and "cache s = zooms_before @ (zoom, columns_before @ (x, elements_before @ (y, element) # elements_after) # columns_after) # zooms_after"
    and "process_cache (roi_prediction s) (dir_toplevel s) zooms_before (env s) = (None, zooms_before', w1)"
    and "roi_prediction s zoom = Some roi"
    and "process_grid roi (dir_toplevel s) columns_before w1 = (None, columns_before', w2)"
    and "process_column roi (dir_toplevel s) elements_before w2 = (None, elements_before', w3)"
    and "process_element roi (dir_toplevel s) element w3 = (Some f, element', w4)"
  shows "process s =
     (Inl f, s\<lparr>do_update := False,
           cache := zooms_before' @ (zoom, columns_before' @ (x, elements_before' @ (y, element') # elements_after) # columns_after) # zooms_after,
           env := w4\<rparr>)"
proof -
  from assms(6,7)
  have col: "process_column roi (dir_toplevel s) (elements_before @ (y, element) # elements_after) w2
      = (Some f, elements_before' @ (y, element') # elements_after, w4)"
    unfolding process_column_def by (rule for_each_stops)
  from assms(5) col
  have grid: "process_grid roi (dir_toplevel s)
        (columns_before @ (x, elements_before @ (y, element) # elements_after) # columns_after) w1
      = (Some f, columns_before' @ (x, elements_before' @ (y, element') # elements_after) # columns_after, w4)"
    unfolding process_grid_def by (rule for_each_stops)
  with assms(4)
  have "process_zoom (roi_prediction s) (dir_toplevel s) zoom
        (columns_before @ (x, elements_before @ (y, element) # elements_after) # columns_after) w1
      = (Some f, columns_before' @ (x, elements_before' @ (y, element') # elements_after) # columns_after, w4)"
    by (simp add: process_zoom_def)
  with assms(3)
  have "process_cache (roi_prediction s) (dir_toplevel s)
        (zooms_before @ (zoom, columns_before @ (x, elements_before @ (y, element) # elements_after) # columns_after) # zooms_after) (env s)
      = (Some f, zooms_before' @ (zoom, columns_before' @ (x, elements_before' @ (y, element') # elements_after) # columns_after) # zooms_after, w4)"
    unfolding process_cache_def by (rule for_each_stops)
  with assms(1,2) show ?thesis by (simp add: process_def)
qed

theorem process_stops_at_failure_witness:
  "do_update ex_failing_state
   \<and> roi_prediction ex_failing_state 5 = Some ex_roi
   \<and> process_element ex_roi (dir_toplevel ex_failing_state) (ex_element 0 0 [ex_labels] False)
        (env ex_failing_state)
       = (Some (InvalidArgument ''Error writing tile: data type unknown!''),
          (ex_element 0 0 [ex_labels] False)\<lparr>tile := (ex_tile 0 0 [ex_labels])\<lparr>t_locked := True\<rparr>\<rparr>,
          env ex_failing_state)
   \<and> process ex_failing_state
       = (Inl (InvalidArgument ''Error writing tile: data type unknown!''),
          ex_failing_state\<lparr>do_update := False,
            cache := [] @ (5, [] @ (0, [] @ (0, (ex_element 0 0 [ex_labels] False)
                       \<lparr>tile := (ex_tile 0 0 [ex_labels])\<lparr>t_locked := True\<rparr>\<rparr>)
                     # [(1, ex_element 0 1 [ex_color] False)]) # []) # [],
            env := env ex_failing_state\<rparr>)"
proof -
  let ?s = ex_failing_state
  let ?bad = "ex_element 0 0 [ex_labels] False"
  let ?f = "InvalidArgument ''Error writing tile: data type unknown!''"
  have flag: "do_update ?s" by (simp add: ex_defs)
  have c: "cache ?s = [] @ (5, [] @ (0, [] @ (0, ?bad) # [(1, ex_element 0 1 [ex_color] False)])
                                 # []) # []"
    by (simp add: ex_failing_state_def ex_state_def)
  have z: "process_cache (roi_prediction ?s) (dir_toplevel ?s) [] (env ?s) = (None, [], env ?s)"
    by (simp add: process_cache_def)
  have roi: "roi_prediction ?s 5 = Some ex_roi" by (simp add: ex_failing_state_def ex_state_def)
  have g: "process_grid ex_roi (dir_toplevel ?s) [] (env ?s) = (None, [], env ?s)"
    by (simp add: process_grid_def)
  have col: "process_column ex_roi (dir_toplevel ?s) [] (env ?s) = (None, [], env ?s)"
    by (simp add: process_column_def)
  have el: "process_element ex_roi (dir_toplevel ?s) ?bad (env ?s)
      = (Some ?f, ?bad\<lparr>tile := (ex_tile 0 0 [ex_labels])\<lparr>t_locked := True\<rparr>\<rparr>, env ?s)"
    by (simp add: process_element_def write_element_def ex_defs path_defs io_defs)
  from process_stops_at_failure[OF flag c z roi g col el] flag roi el show ?thesis by simp
qed

section \<open>The written flag is never reset; a completed write persists every layer\<close>

lemma was_written_never_reset:
  "write_element dir e w = (r, e', w') \<Longrightarrow> was_written e \<Longrightarrow> was_written e'"
  "load dir e w = (r1, e1) \<Longrightarrow> was_written e1 = was_written e"
  "flush dir e w = (r, e', w') \<Longrightarrow> was_written e \<Longrightarrow> was_written e'"
  "process_element roi dir e w = (r, e', w') \<Longrightarrow> was_written e \<Longrightarrow> was_written e'"
  "flushAll_element dir e w = (r, e', w') \<Longrightarrow> was_written e \<Longrightarrow> was_written e'"
proof -
  show "write_element dir e w = (r, e', w') \<Longrightarrow> was_written e \<Longrightarrow> was_written e'"
    using write_layers_props[of dir "layer_meta e" e w r e' w'] by (simp add: write_element_def)
  show "load dir e w = (r1, e1) \<Longrightarrow> was_written e1 = was_written e"
    using load_layers_frame[of dir "layer_meta e" e w r1 e1]
    by (auto simp add: load_def without_raster_def dest: arg_cong[where f = was_written])
  show fl: "\<And>e w r e' w'. flush dir e w = (r, e', w') \<Longrightarrow> was_written e \<Longrightarrow> was_written e'"
  proof -
    fix e w r e' w'
    assume "flush dir e w = (r, e', w')" and "was_written e"
    then have "remove_layers (layer_meta e) e w = (r, e', w')" by (simp add: flush_def)
    from remove_layers_props[OF this] \<open>was_written e\<close> show "was_written e'" by simp
  qed
  show "process_element roi dir e w = (r, e', w') \<Longrightarrow> was_written e \<Longrightarrow> was_written e'"
    by (auto simp add: process_element_def Let_def split: if_splits option.splits prod.splits
        dest!: fl)
  show "flushAll_element dir e w = (r, e', w') \<Longrightarrow> was_written e \<Longrightarrow> was_written e'"
    by (auto simp add: flushAll_element_def Let_def split: if_splits option.splits prod.splits)
qed

lemma fileExists_saveImage: "fileExists f (saveImage d f' w) \<longleftrightarrow> f = f' \<or> fileExists f w"
  by (auto simp add: fileExists_def saveImage_def)

lemma write_layers_keeps_files:
  "write_layers dir ms e w = (r, e', w') \<Longrightarrow> fileExists f w \<Longrightarrow> fileExists f w'"
proof (induction ms arbitrary: e w)
  case Nil
  then show ?case by simp
next
  case (Cons m ms)
  then show ?case
    by (auto simp add: fileExists_saveImage split: option.splits)
qed

lemma write_layers_persists:
  "write_layers dir ms e w = (None, e', w') \<Longrightarrow> m \<in> set ms
     \<Longrightarrow> \<exists>ext. fileExists (tile_path dir (lm_name m) (tile e) @ ext) w'"
proof (induction ms arbitrary: e w)
  case Nil
  then show ?case by simp
next
  case (Cons m1 ms)
  from Cons.prems(1) obtain g d ext where g: "t_data (tile e) = Some g"
    and d: "grid_get g (lm_name m1) = Some d"
    and ext: "file_extension (mat_type d AND CV_MAT_DEPTH_MASK) = Some ext"
    by (auto split: option.splits)
  let ?w1 = "saveImage d (tile_path dir (lm_name m1) (tile e) @ ext) w"
  from Cons.prems(1) g d ext
  have rec: "write_layers dir ms (e\<lparr>was_written := True\<rparr>) ?w1 = (None, e', w')" by simp
  show ?case
  proof (cases "m \<in> set ms")
    case True
    from Cons.IH[OF rec True] show ?thesis by simp
  next
    case False
    with Cons.prems(2) have "m = m1" by simp
    moreover have "fileExists (tile_path dir (lm_name m1) (tile e) @ ext) ?w1"
      by (simp add: fileExists_saveImage)
    from write_layers_keeps_files[OF rec this]
    have "fileExists (tile_path dir (lm_name m1) (tile e) @ ext) w'" .
    ultimately show ?thesis by blast
  qed
qed

lemma remove_layers_disk: "remove_layers ms e w = (r, e', w') \<Longrightarrow> disk w' = disk w"
proof (induction ms arbitrary: e w)
  case Nil
  then show ?case by simp
next
  case (Cons m ms)
  show ?case
  proof (cases "t_data (tile e)")
    case None
    with Cons.prems show ?thesis by simp
  next
    case (Some g)
    with Cons.prems Cons.IH show ?thesis by fastforce
  qed
qed

text \<open>
  An element that a cycle of the worker finds unwritten and gets through without a
  failure has every listed layer on a file afterwards, evicted or not.
\<close>

lemma process_element_persists:
  assumes unwritten: "\<not> was_written e"
    and run: "process_element roi dir e w = (None, e', w')"
    and m: "m \<in> set (layer_meta e)"
  shows "\<exists>ext. fileExists (tile_path dir (lm_name m) (tile e) @ ext) w'"
proof -
  from run have unlocked: "\<not> t_locked (tile e)"
    by (auto simp add: process_element_def split: if_splits)
  define e0 where "e0 = e\<lparr>tile := (tile e)\<lparr>t_locked := True\<rparr>\<rparr>"
  have path: "tile_path dir (lm_name m) (tile e0) = tile_path dir (lm_name m) (tile e)"
    by (rule tile_path_coords) (simp_all add: e0_def)
  have e0: "\<not> was_written e0" "layer_meta e0 = layer_meta e"
    using unwritten by (simp_all add: e0_def)
  obtain r1 e1 w1 where wr: "write_layers dir (layer_meta e) e0 w = (r1, e1, w1)"
    by (metis prod_cases3)
  then have first: "(if \<not> was_written e0 then write_element dir e0 w else (None, e0, w))
      = (r1, e1, w1)"
    using e0 by (simp add: write_element_def)
  have pe: "process_element roi dir e w =
      (case (r1, e1, w1) of
         (Some f, e1, w1) \<Rightarrow> (Some f, e1, w1)
       | (None, e1, w1) \<Rightarrow>
           (case isCached e1 of
              None \<Rightarrow> (Some NullPointerDeref, e1, w1)
            | Some cached \<Rightarrow>
                (case (if cached \<and> outside_roi roi (t_x (tile e1)) (t_y (tile e1))
                       then flush dir e1 w1 else (None, e1, w1)) of
                   (Some f, e2, w2) \<Rightarrow> (Some f, e2, w2)
                 | (None, e2, w2) \<Rightarrow>
                     (None, e2\<lparr>tile := (tile e2)\<lparr>t_locked := False\<rparr>\<rparr>, w2))))"
    unfolding process_element_def Let_def e0_def[symmetric] first using unlocked by simp
  from run pe have r1: "r1 = None" by (cases r1) simp_all
  from write_layers_persists[OF wr[unfolded r1] m] path
  obtain ext where saved: "fileExists (tile_path dir (lm_name m) (tile e) @ ext) w1" by auto
  from write_layers_props[OF wr] r1 m have written: "was_written e1" by auto
  from run pe r1 obtain cached where c: "isCached e1 = Some cached"
    by (cases "isCached e1") simp_all
  have "disk w' = disk w1"
  proof (cases "cached \<and> outside_roi roi (t_x (tile e1)) (t_y (tile e1))")
    case False
    with run pe r1 c show ?thesis by auto
  next
    case True
    obtain r2 e2 w2 where fl: "flush dir e1 w1 = (r2, e2, w2)" by (metis prod_cases3)
    with written have "remove_layers (layer_meta e1) e1 w1 = (r2, e2, w2)"
      by (simp add: flush_def)
    from remove_layers_disk[OF this] have d: "disk w2 = disk w1" .
    from True run pe r1 c fl have "w' = w2" by (cases r2) simp_all
    with d show ?thesis by simp
  qed
  with saved show ?thesis by (auto simp add: fileExists_def)
qed

section \<open>Eviction after a partial write\<close>


end
